theory Spec2Isabelle
  imports Main "HOL-Library.Word"
begin

unbundle bit_operations_syntax

section \<open>Bytes, slices and string formatting\<close>

text \<open>
  A Python \<open>bytearray\<close> is a list of bytes; indexing a byte gives an integer in
  \<open>0..255\<close>, read here with \<open>unat\<close> or \<open>uint\<close>.
\<close>

type_synonym byte = "8 word"

text \<open>Python's \<open>xs[i:j]\<close> for non-negative \<open>i\<close>, \<open>j\<close> (out-of-range bounds are clipped).\<close>

definition py_slice :: "nat \<Rightarrow> nat \<Rightarrow> 'a list \<Rightarrow> 'a list" where
  "py_slice i j xs = take (j - i) (drop i xs)"

text \<open>Python's \<open>sum\<close> over a bytearray: an unbounded integer.\<close>

definition sum_bytes :: "byte list \<Rightarrow> nat" where
  "sum_bytes xs = sum_list (map unat xs)"

text \<open>The format \<open>f"{b:02X}"\<close> of a byte: two upper-case hexadecimal digits.\<close>

definition hexdigit :: "nat \<Rightarrow> char" where
  "hexdigit n = ''0123456789ABCDEF'' ! n"

definition hex2 :: "byte \<Rightarrow> string" where
  "hex2 b = [hexdigit (unat b div 16), hexdigit (unat b mod 16)]"

text \<open>\<open>' '.join(parts)\<close>.\<close>

fun join_space :: "string list \<Rightarrow> string" where
  "join_space [] = []"
| "join_space [x] = x"
| "join_space (x # y # zs) = x @ '' '' @ join_space (y # zs)"

text \<open>The format \<open>f"{n}"\<close> of an integer: decimal digits, with a minus sign when negative.\<close>

fun str_nat :: "nat \<Rightarrow> string" where
  "str_nat n = (if n < 10 then [hexdigit n] else str_nat (n div 10) @ [hexdigit (n mod 10)])"

definition str_int :: "int \<Rightarrow> string" where
  "str_int i = (if i < 0 then CHR ''-'' # str_nat (nat (- i)) else str_nat (nat i))"

section \<open>Card notification frames\<close>

text \<open>
  The dictionary \<open>card_info\<close> built by both inventory decoders and by
  \<open>read_card_once\<close>: the keys \<open>'rssi'\<close>, \<open>'pc'\<close>, \<open>'epc'\<close>, \<open>'crc'\<close>, all strings.
\<close>

record card_info =
  rssi :: string
  pc :: string
  epc :: string
  crc :: string

text \<open>
  The RSSI conversion of the source: \<open>rssi_raw > 127\<close> gives \<open>-(256 - rssi_raw)\<close>,
  anything else \<open>-rssi_raw\<close>.
\<close>

definition rssi_dbm :: "byte \<Rightarrow> int" where
  "rssi_dbm rssi_raw =
     (if uint rssi_raw > 127 then - (256 - uint rssi_raw) else - uint rssi_raw)"

text \<open>The field extraction from a packet (offsets 5, 6..7, 8..19, 20..21).\<close>

definition parse_card :: "byte list \<Rightarrow> card_info" where
  "parse_card packet =
     \<lparr> rssi = str_int (rssi_dbm (packet ! 5)),
       pc = hex2 (packet ! 6) @ '' '' @ hex2 (packet ! 7),
       epc = join_space (map hex2 (py_slice 8 20 packet)),
       crc = hex2 (packet ! 20) @ '' '' @ hex2 (packet ! 21) \<rparr>"

section \<open>The inventory decoders\<close>

text \<open>
  What a decoder thread hands to its consumer. For \<open>RFIDReader._read_thread_func\<close>:
  \<open>CardEvent\<close> is \<open>callback(card_info)\<close>, \<open>MissedRead\<close> the log line for an
  error/no-tag frame, \<open>ThreadError\<close> the log line of the \<open>except\<close> clause. For
  \<open>SerialReadThread.run\<close>: the signals \<open>card_readed\<close>, \<open>read_failed\<close> and
  \<open>error_occurred\<close>.
\<close>

datatype event = CardEvent card_info | MissedRead | ThreadError

text \<open>Record one more event in front of those of the rest of the loop.\<close>

fun emit :: "event \<Rightarrow> event list \<times> 'a \<Rightarrow> event list \<times> 'a" where
  "emit e (es, rest) = (e # es, rest)"

text \<open>
  The inner \<open>while True\<close> loop of \<open>RFIDReader._read_thread_func\<close> over the buffer,
  with the local flag \<open>read_failed_logged\<close>. It returns the events in order, the flag
  and the bytes left in the buffer at \<open>break\<close>.
\<close>

function scan_core :: "bool \<Rightarrow> byte list \<Rightarrow> event list \<times> bool \<times> byte list" where
  "scan_core read_failed_logged buffer =
     (if length buffer < 1 then ([], read_failed_logged, buffer)
      else if buffer ! 0 \<noteq> 0xBB then scan_core read_failed_logged (tl buffer)
      else if length buffer < 7 then ([], read_failed_logged, buffer)
      else if buffer ! 1 = 0x01 \<and> buffer ! 2 = 0xFF then
        (if length buffer \<ge> 8 then
           (if \<not> read_failed_logged then emit MissedRead (scan_core True (drop 8 buffer))
            else scan_core read_failed_logged (drop 8 buffer))
         else ([], read_failed_logged, buffer))
      else if buffer ! 1 = 0x02 \<and> (buffer ! 2 = 0x22 \<or> buffer ! 2 = 0x27) then
        (if length buffer < 24 then ([], read_failed_logged, buffer)
         else if buffer ! 23 \<noteq> 0x7E then scan_core read_failed_logged (tl buffer)
         else if push_bit 8 (unat (take 24 buffer ! 3)) OR unat (take 24 buffer ! 4) \<noteq> 0x11
           then scan_core read_failed_logged (drop 24 buffer)
         else if sum_bytes (py_slice 1 22 (take 24 buffer)) AND 0xFF \<noteq> unat (take 24 buffer ! 22)
           then scan_core read_failed_logged (drop 24 buffer)
         else emit (CardEvent (parse_card (take 24 buffer))) (scan_core False (drop 24 buffer)))
      else scan_core read_failed_logged (tl buffer))"
  by pat_completeness auto
termination
  by (relation "measure (\<lambda>(l, b). length b)") auto

declare scan_core.simps [simp del]

text \<open>
  The same loop in \<open>SerialReadThread.run\<close>: there is no flag, \<open>read_failed\<close> is
  emitted for every error frame.
\<close>

function scan_handler :: "byte list \<Rightarrow> event list \<times> byte list" where
  "scan_handler buffer =
     (if length buffer < 1 then ([], buffer)
      else if buffer ! 0 \<noteq> 0xBB then scan_handler (tl buffer)
      else if length buffer < 7 then ([], buffer)
      else if buffer ! 1 = 0x01 \<and> buffer ! 2 = 0xFF then
        (if length buffer \<ge> 8 then emit MissedRead (scan_handler (drop 8 buffer))
         else ([], buffer))
      else if buffer ! 1 = 0x02 \<and> (buffer ! 2 = 0x22 \<or> buffer ! 2 = 0x27) then
        (if length buffer < 24 then ([], buffer)
         else if buffer ! 23 \<noteq> 0x7E then scan_handler (tl buffer)
         else if push_bit 8 (unat (take 24 buffer ! 3)) OR unat (take 24 buffer ! 4) \<noteq> 0x11
           then scan_handler (drop 24 buffer)
         else if sum_bytes (py_slice 1 22 (take 24 buffer)) AND 0xFF \<noteq> unat (take 24 buffer ! 22)
           then scan_handler (drop 24 buffer)
         else emit (CardEvent (parse_card (take 24 buffer))) (scan_handler (drop 24 buffer)))
      else scan_handler (tl buffer))"
  by pat_completeness auto
termination
  by (relation "measure length") auto

declare scan_handler.simps [simp del]

text \<open>
  The outer loop of both threads. Each turn reads from the port: \<open>Data d\<close> is what
  \<open>ser.read(ser.in_waiting or 1)\<close> returned (empty on a read timeout), \<open>ReadRaises\<close>
  is an exception in the \<open>try\<close> block, which is reported and ends the loop. The list
  ends where the loop condition (reading still active, port still open) fails. The
  buffer and the flag are locals of the thread function and live across turns.
\<close>

datatype read_result = Data "byte list" | ReadRaises

fun thread_loop_core :: "bool \<Rightarrow> byte list \<Rightarrow> read_result list \<Rightarrow> event list" where
  "thread_loop_core read_failed_logged buffer [] = []"
| "thread_loop_core read_failed_logged buffer (ReadRaises # reads) = [ThreadError]"
| "thread_loop_core read_failed_logged buffer (Data d # reads) =
     (if d = [] then thread_loop_core read_failed_logged buffer reads
      else case scan_core read_failed_logged (buffer @ d) of
        (es, read_failed_logged', buffer') \<Rightarrow>
          es @ thread_loop_core read_failed_logged' buffer' reads)"

definition read_thread_func :: "read_result list \<Rightarrow> event list" where
  "read_thread_func reads = thread_loop_core False [] reads"

fun thread_loop_handler :: "byte list \<Rightarrow> read_result list \<Rightarrow> event list" where
  "thread_loop_handler buffer [] = []"
| "thread_loop_handler buffer (ReadRaises # reads) = [ThreadError]"
| "thread_loop_handler buffer (Data d # reads) =
     (if d = [] then thread_loop_handler buffer reads
      else case scan_handler (buffer @ d) of
        (es, buffer') \<Rightarrow> es @ thread_loop_handler buffer' reads)"

definition SerialReadThread_run :: "read_result list \<Rightarrow> event list" where
  "SerialReadThread_run reads = thread_loop_handler [] reads"

text \<open>
  A well-formed card notification frame: 24 bytes, header \<open>BB\<close>, type \<open>02\<close>, command
  \<open>22\<close> or \<open>27\<close>, payload length \<open>0x0011\<close>, the checksum over offsets 1..21 at
  offset 22 and the terminator \<open>7E\<close>.
\<close>

definition card_frame_ok :: "byte list \<Rightarrow> bool" where
  "card_frame_ok f \<longleftrightarrow>
     length f = 24 \<and> f ! 0 = 0xBB \<and> f ! 1 = 0x02 \<and> (f ! 2 = 0x22 \<or> f ! 2 = 0x27) \<and>
     f ! 3 = 0x00 \<and> f ! 4 = 0x11 \<and>
     unat (f ! 22) = sum_bytes (py_slice 1 22 f) mod 256 \<and> f ! 23 = 0x7E"

text \<open>The frame of the specification's decoding example.\<close>

definition literal_frame :: "byte list" where
  "literal_frame =
     [0xBB, 0x02, 0x22, 0x00, 0x11, 0x30, 0x30, 0x00, 0xAA, 0xBB, 0xCC, 0xDD, 0xEE, 0xFF,
      0x11, 0x22, 0x33, 0x44, 0x55, 0x66, 0x12, 0x34, 0x3B, 0x7E]"

definition literal_card :: card_info where
  "literal_card =
     \<lparr> rssi = ''-48'', pc = ''30 00'', epc = ''AA BB CC DD EE FF 11 22 33 44 55 66'',
       crc = ''12 34'' \<rparr>"

section \<open>Command builders\<close>

text \<open>
  The exceptions of the source. \<open>RFIDDeviceError\<close> carries its message: not connected,
  connection lost (the input buffer could not be reset), connection closed, no response,
  communication failure (after a \<open>SerialException\<close>), send failed (with the text of the
  exception it wraps), all retries failed. \<open>OtherException\<close> is any exception that is
  not one of the named classes.
\<close>

datatype exn = ValueError | SerialException | OtherException | RFIDDeviceError reason
  and reason = NotConnected | ConnectionLost | ConnectionClosed | NoResponse | CommFailed
    | SendFailed exn | AllRetriesFailed

text \<open>
  \<open>bytes.fromhex\<close>: ASCII whitespace before a pair of digits is skipped, every byte is
  two hexadecimal digits of either case, anything else raises \<open>ValueError\<close> (here
  \<open>None\<close>).
\<close>

definition isspace :: "char \<Rightarrow> bool" where
  "isspace c \<longleftrightarrow> c \<in> set [CHR 0x09, CHR 0x0A, CHR 0x0B, CHR 0x0C, CHR 0x0D, CHR 0x20]"

definition hexval :: "char \<Rightarrow> nat option" where
  "hexval c =
     (let n = (of_char c :: nat) in
      if 48 \<le> n \<and> n \<le> 57 then Some (n - 48)
      else if 97 \<le> n \<and> n \<le> 102 then Some (n - 87)
      else if 65 \<le> n \<and> n \<le> 70 then Some (n - 55)
      else None)"

fun fromhex :: "string \<Rightarrow> byte list option" where
  "fromhex [] = Some []"
| "fromhex (c # cs) =
     (if isspace c then fromhex cs
      else (case hexval c of
        None \<Rightarrow> None
      | Some hi \<Rightarrow>
          (case cs of
            [] \<Rightarrow> None
          | d # ds \<Rightarrow>
              (case hexval d of
                None \<Rightarrow> None
              | Some lo \<Rightarrow> map_option ((#) (word_of_nat (hi * 16 + lo))) (fromhex ds)))))"

text \<open>\<open>s.replace(" ", "")\<close> and \<open>s.zfill(width)\<close> (zeros go after a leading sign).\<close>

definition remove_spaces :: "string \<Rightarrow> string" where
  "remove_spaces s = filter (\<lambda>c. c \<noteq> CHR '' '') s"

definition zfill :: "nat \<Rightarrow> string \<Rightarrow> string" where
  "zfill width s =
     (if width \<le> length s then s
      else case s of
        [] \<Rightarrow> replicate width (CHR ''0'')
      | c # cs \<Rightarrow>
          if c = CHR ''+'' \<or> c = CHR ''-'' then c # replicate (width - length s) (CHR ''0'') @ cs
          else replicate (width - length s) (CHR ''0'') @ s)"

text \<open>
  The command frame of \<open>set_select_mode\<close>. \<open>bytearray([...])\<close> raises
  \<open>ValueError\<close> for an element outside \<open>range(256)\<close>; the checksum is
  \<open>sum(command[1:6]) & 0xFF\<close>.
\<close>

definition set_select_mode_command :: "int \<Rightarrow> exn + byte list" where
  "set_select_mode_command mode =
     (if 0 \<le> mode \<and> mode < 256 then
        (let command = [0xBB, 0x00, 0x12, 0x00, 0x01, word_of_int mode];
             checksum = sum_bytes (py_slice 1 6 command) AND 0xFF
         in Inr (command @ [word_of_nat checksum, 0x7E]))
      else Inl ValueError)"

text \<open>
  The command frame of \<open>set_select_params\<close> for the decoded EPC (12 bytes when it is
  built): checksum \<open>sum(command[1:24]) & 0xFF\<close>.
\<close>

definition set_select_params_command :: "byte list \<Rightarrow> byte list" where
  "set_select_params_command epc_bytes =
     (let command = [0xBB, 0x00, 0x0C, 0x00, 0x13, 0x01, 0x00, 0x00, 0x00, 0x20, 0x60, 0x00]
                    @ epc_bytes;
          checksum = sum_bytes (py_slice 1 24 command) AND 0xFF
      in command @ [word_of_nat checksum] @ [0x7E])"

text \<open>
  The access password of \<open>write_epc\<close> and \<open>read_tag_memory\<close>: empty becomes
  \<open>"00000000"\<close>, shorter than 8 characters is zero-filled, and it must decode to 4
  bytes; \<open>None\<close> where the operation returns its failure value.
\<close>

definition access_password_bytes :: "string \<Rightarrow> byte list option" where
  "access_password_bytes access_password =
     (let pw = (if access_password = [] then ''00000000''
                else if length access_password < 8 then zfill 8 access_password
                else access_password)
      in case fromhex pw of
           None \<Rightarrow> None
         | Some pwd_bytes \<Rightarrow> if length pwd_bytes \<noteq> 4 then None else Some pwd_bytes)"

text \<open>
  The command frame \<open>write_epc\<close> sends, \<open>None\<close> where it returns \<open>False\<close> before
  building one: checksum \<open>sum(command[1:]) % 256\<close>.
\<close>

definition write_epc_command :: "string \<Rightarrow> string \<Rightarrow> byte list option" where
  "write_epc_command new_epc access_password =
     (case fromhex (remove_spaces new_epc) of
        None \<Rightarrow> None
      | Some epc_bytes \<Rightarrow>
          if length epc_bytes \<noteq> 12 then None
          else (case access_password_bytes access_password of
            None \<Rightarrow> None
          | Some pwd_bytes \<Rightarrow>
              (let command = [0xBB, 0x00, 0x49, 0x00, 0x11] @ pwd_bytes
                             @ [0x01, 0x02, 0x00, 0x06] @ epc_bytes;
                   command = command @ [word_of_nat (sum_bytes (drop 1 command) mod 256)]
               in Some (command @ [0x7E]))))"

text \<open>
  The command frame \<open>read_tag_memory\<close> sends, \<open>None\<close> where it returns \<open>None\<close>
  before building one. The arguments are Python integers, cut to bytes with
  \<open>& 0xFF\<close> and \<open>>> 8\<close>; checksum \<open>sum(command[1:]) & 0xFF\<close>.
\<close>

definition read_tag_memory_command :: "string \<Rightarrow> int \<Rightarrow> int \<Rightarrow> int \<Rightarrow> byte list option" where
  "read_tag_memory_command access_password membank start_addr length_words =
     (case access_password_bytes access_password of
        None \<Rightarrow> None
      | Some pwd_bytes \<Rightarrow>
          (let command = [0xBB, 0x00, 0x39, 0x00, 0x09] @ pwd_bytes
                 @ [word_of_int (membank AND 0xFF),
                    word_of_int (start_addr AND 0xFF),
                    word_of_int (drop_bit 8 start_addr AND 0xFF),
                    word_of_int (length_words AND 0xFF),
                    word_of_int (drop_bit 8 length_words AND 0xFF)];
               checksum = sum_bytes (drop 1 command) AND 0xFF
           in Some (command @ [word_of_nat checksum] @ [0x7E])))"

text \<open>
  The checksum rule of the wire protocol: the byte before the terminator is the sum of
  the bytes from index 1 up to the last payload byte, modulo 256
  (\<open>checksum == sum(bytes[1:-2]) mod 256\<close>).
\<close>

definition checksum_ok :: "byte list \<Rightarrow> bool" where
  "checksum_ok frame \<longleftrightarrow>
     2 \<le> length frame \<and>
     unat (frame ! (length frame - 2)) = sum_bytes (py_slice 1 (length frame - 2) frame) mod 256"

text \<open>
  The missed-read latch as a property of an event trace: given whether the latch is set,
  a \<open>MissedRead\<close> may only occur while it is clear and sets it; a card clears it.
\<close>

fun latch_ok :: "bool \<Rightarrow> event list \<Rightarrow> bool" where
  "latch_ok latched [] = True"
| "latch_ok latched (MissedRead # es) = (\<not> latched \<and> latch_ok True es)"
| "latch_ok latched (CardEvent c # es) = latch_ok False es"
| "latch_ok latched (ThreadError # es) = latch_ok latched es"

fun latch_after :: "bool \<Rightarrow> event list \<Rightarrow> bool" where
  "latch_after latched [] = latched"
| "latch_after latched (MissedRead # es) = latch_after True es"
| "latch_after latched (CardEvent c # es) = latch_after False es"
| "latch_after latched (ThreadError # es) = latch_after latched es"

text \<open>An error/no-tag notification frame, such as \<open>BB 01 FF 00 01 15 16 7E\<close>.\<close>

definition error_frame_ok :: "byte list \<Rightarrow> bool" where
  "error_frame_ok f \<longleftrightarrow> length f = 8 \<and> f ! 0 = 0xBB \<and> f ! 1 = 0x01 \<and> f ! 2 = 0xFF"

definition no_tag_frame :: "byte list" where
  "no_tag_frame = [0xBB, 0x01, 0xFF, 0x00, 0x01, 0x15, 0x16, 0x7E]"

section \<open>The session and its serial port\<close>

text \<open>
  The port handle \<open>self.ser\<close> of pyserial, as far as the code reads it: the name it was
  opened with and \<open>is_open\<close>.
\<close>

record port =
  pname :: string
  is_open :: bool

text \<open>
  The device and the operating system are the environment. Every operation on the port
  (open, close, \<open>reset_input_buffer\<close>, \<open>write\<close>, one turn of the polling loop) asks
  the environment for its outcome: \<open>script\<close> answers the \<open>tick\<close>-th operation.
  \<open>Quiet\<close>: the operation succeeds and no byte is waiting; \<open>Avail b\<close>: it succeeds and,
  in the polling loop, \<open>in_waiting > 0\<close> and \<open>read()\<close> returns \<open>b\<close>;
  \<open>SerialError\<close>: it raises \<open>serial.SerialException\<close>; \<open>OtherError\<close>: it raises
  another exception.
\<close>

datatype reply = Quiet | Avail byte | SerialError | OtherError

text \<open>What the outside world sees of the session: ports opened and closed, frames written.\<close>

datatype io = Opened string | Closed string | Wrote "byte list"

text \<open>
  The fields of \<open>RFIDReader\<close> (\<open>ser\<close> to \<open>last_port\<close>; \<open>last_port\<close> is \<open>None\<close>
  while the attribute does not exist; \<open>self.gain\<close> is kept in hundredths of a dBm, the
  source divides by 100; \<open>read_thread\<close> says whether a thread object is held), followed
  by the environment: the ports \<open>list_devices()\<close> reports, the script and its position,
  the trace of effects on the port and the total time spent in \<open>time.sleep\<close>, in
  milliseconds. Log output is not part of the state.
\<close>

record session =
  ser :: "port option"
  group_read_active :: bool
  read_thread :: bool
  current_power :: "string option"
  gain :: "nat option"
  select_mode :: int
  select_param :: "string option"
  last_port :: "string option"
  ports :: "string list"
  script :: "nat \<Rightarrow> reply"
  tick :: nat
  io_log :: "io list"
  slept_ms :: nat

definition next_reply :: "session \<Rightarrow> reply" where
  "next_reply s = script s (tick s)"

definition step :: "session \<Rightarrow> session" where
  "step s = s\<lparr>tick := tick s + 1\<rparr>"

definition sleep_ms :: "nat \<Rightarrow> session \<Rightarrow> session" where
  "sleep_ms n s = s\<lparr>slept_ms := slept_ms s + n\<rparr>"

definition is_connected :: "session \<Rightarrow> bool" where
  "is_connected s = (case ser s of None \<Rightarrow> False | Some p \<Rightarrow> is_open p)"

subsection \<open>send_command\<close>

text \<open>
  The polling loop of \<open>send_command\<close>. \<open>wait_time\<close> counts the 10 ms sleeps
  (\<open>max_wait\<close> is 1.0 s, that is 100 of them); it only advances when nothing is waiting,
  so the loop need not end while bytes other than \<open>7E\<close> keep arriving: \<open>None\<close> is a
  loop that never returns.
\<close>

partial_function (option) wait_for_response ::
  "session \<Rightarrow> nat \<Rightarrow> byte list \<Rightarrow> ((exn + byte list) \<times> session) option" where
  "wait_for_response s wait_time response =
     (if wait_time < 100 then
        (case next_reply s of
           Avail b \<Rightarrow>
             if b = 0x7E then Some (Inr (response @ [b]), step s)
             else wait_for_response (step s) wait_time (response @ [b])
         | Quiet \<Rightarrow> wait_for_response (sleep_ms 10 (step s)) (wait_time + 1) response
         | SerialError \<Rightarrow> Some (Inl SerialException, step s)
         | OtherError \<Rightarrow> Some (Inl OtherException, step s))
      else Some (Inr response, s))"

text \<open>
  The body of the \<open>try\<close> block of one attempt, up to the end of the polling loop: the
  exception it raises or the response it has accumulated. A failure of
  \<open>reset_input_buffer\<close> (also the \<open>AttributeError\<close> when \<open>self.ser\<close> is already
  \<open>None\<close>) and a port found closed clear \<open>self.ser\<close> and raise \<open>RFIDDeviceError\<close>.
\<close>

definition try_send :: "session \<Rightarrow> byte list \<Rightarrow> ((exn + byte list) \<times> session) option" where
  "try_send s command =
     (case ser s of
        None \<Rightarrow> Some (Inl (RFIDDeviceError ConnectionLost), s)
      | Some p \<Rightarrow>
          if next_reply s = SerialError \<or> next_reply s = OtherError
          then Some (Inl (RFIDDeviceError ConnectionLost), (step s)\<lparr>ser := None\<rparr>)
          else if \<not> is_open p
          then Some (Inl (RFIDDeviceError ConnectionClosed), (step s)\<lparr>ser := None\<rparr>)
          else if next_reply (step s) = SerialError
          then Some (Inl SerialException, step (step s))
          else if next_reply (step s) = OtherError
          then Some (Inl OtherException, step (step s))
          else wait_for_response
                 ((step (step s))\<lparr>io_log := io_log s @ [Wrote command]\<rparr>) 0 [])"

text \<open>
  The \<open>for retry in range(max_retries)\<close> loop with its \<open>except\<close> clauses; the first
  argument is the number of attempts left (\<open>retry < max_retries - 1\<close> when another one
  remains after this). A \<open>SerialException\<close> clears \<open>self.ser\<close> and raises at once;
  any other exception, and an empty response, sleep 0.1 s and go round again, or raise on
  the last attempt.
\<close>

fun send_retries :: "nat \<Rightarrow> session \<Rightarrow> byte list \<Rightarrow> ((exn + byte list) \<times> session) option" where
  "send_retries 0 s command = Some (Inl (RFIDDeviceError AllRetriesFailed), s)"
| "send_retries (Suc n) s command =
     (case try_send s command of
        None \<Rightarrow> None
      | Some (Inr response, s1) \<Rightarrow>
          if response = [] then
            (if 0 < n then send_retries n (sleep_ms 100 s1) command
             else Some (Inl (RFIDDeviceError (SendFailed (RFIDDeviceError NoResponse))), s1))
          else Some (Inr response, s1)
      | Some (Inl e, s1) \<Rightarrow>
          if e = SerialException then Some (Inl (RFIDDeviceError CommFailed), s1\<lparr>ser := None\<rparr>)
          else if 0 < n then send_retries n (sleep_ms 100 s1) command
          else Some (Inl (RFIDDeviceError (SendFailed e)), s1))"

definition max_retries :: nat where
  "max_retries = 3"

definition send_command :: "session \<Rightarrow> byte list \<Rightarrow> ((exn + byte list) \<times> session) option" where
  "send_command s command =
     (if \<not> is_connected s then Some (Inl (RFIDDeviceError NotConnected), s)
      else send_retries max_retries s command)"

subsection \<open>Operations of the session\<close>

text \<open>\<open>response.startswith(prefix)\<close>.\<close>

definition startswith :: "byte list \<Rightarrow> byte list \<Rightarrow> bool" where
  "startswith response prefix \<longleftrightarrow> take (length prefix) response = prefix"

definition read_once_command :: "byte list" where
  "read_once_command = [0xBB, 0x00, 0x22, 0x00, 0x00, 0x22, 0x7E]"

definition start_command :: "byte list" where
  "start_command = [0xBB, 0x00, 0x27, 0x00, 0x03, 0x22, 0xFF, 0xFF, 0x4A, 0x7E]"

definition stop_command :: "byte list" where
  "stop_command = [0xBB, 0x00, 0x28, 0x00, 0x00, 0x28, 0x7E]"

definition gain_command :: "byte list" where
  "gain_command = [0xBB, 0x00, 0xB7, 0x00, 0x00, 0xB7, 0x7E]"

text \<open>
  \<open>start_reading\<close>: sends the start command and marks the session as reading (the thread
  it starts is the decoder of the previous section).
\<close>

definition start_reading :: "session \<Rightarrow> (bool \<times> session) option" where
  "start_reading s =
     (if \<not> is_connected s then Some (False, s)
      else if group_read_active s then Some (True, s)
      else case send_command s start_command of
        None \<Rightarrow> None
      | Some (Inl e, s1) \<Rightarrow> Some (False, s1)
      | Some (Inr response, s1) \<Rightarrow>
          Some (True, s1\<lparr>group_read_active := True, read_thread := True\<rparr>))"

text \<open>
  \<open>stop_reading\<close>: every exception of \<open>send_command\<close> is caught and gives \<open>False\<close>;
  the bounded \<open>join\<close> of the thread is taken to return.
\<close>

definition stop_reading :: "session \<Rightarrow> (bool \<times> session) option" where
  "stop_reading s =
     (if \<not> is_connected s then Some (False, s)
      else if \<not> group_read_active s then Some (True, s)
      else case send_command s stop_command of
        None \<Rightarrow> None
      | Some (Inl e, s1) \<Rightarrow> Some (False, s1)
      | Some (Inr response, s1) \<Rightarrow>
          Some (True, s1\<lparr>group_read_active := False, read_thread := False\<rparr>))"

text \<open>
  \<open>disconnect\<close>. After a failed \<open>stop_reading\<close> the handle may already be \<open>None\<close>,
  and \<open>self.ser.close()\<close> then raises an \<open>AttributeError\<close> that nothing catches. Only
  \<open>SerialException\<close> and \<open>IOError\<close> from \<open>close\<close> are caught (result \<open>False\<close>).
  Nothing but \<open>self.ser\<close> is assigned.
\<close>

definition disconnect :: "session \<Rightarrow> ((exn + bool) \<times> session) option" where
  "disconnect s =
     (case ser s of
        None \<Rightarrow> Some (Inr True, s)
      | Some p \<Rightarrow>
          (case (if group_read_active s then stop_reading s else Some (True, s)) of
             None \<Rightarrow> None
           | Some (stopped, s1) \<Rightarrow>
               (case ser s1 of
                  None \<Rightarrow> Some (Inl OtherException, s1)
                | Some p1 \<Rightarrow>
                    if next_reply s1 = SerialError
                    then Some (Inr False, (step s1)\<lparr>ser := None\<rparr>)
                    else if next_reply s1 = OtherError
                    then Some (Inl OtherException, step s1)
                    else Some (Inr True,
                      (step s1)\<lparr>ser := None, io_log := io_log s1 @ [Closed (pname p1)]\<rparr>))))"

text \<open>
  The gain in a response to the gain query: at least 9 bytes starting
  \<open>BB 01 B7 00 02\<close>, the value is \<open>(response[5] << 8) | response[6]\<close>.
\<close>

definition parse_gain :: "byte list \<Rightarrow> nat option" where
  "parse_gain response =
     (if response \<noteq> [] \<and> 9 \<le> length response
         \<and> startswith response [0xBB, 0x01, 0xB7, 0x00, 0x02]
      then Some (push_bit 8 (unat (response ! 5)) OR unat (response ! 6))
      else None)"

text \<open>
  The second (and last) attempt of \<open>get_current_gain\<close>: half a second of sleep, then one
  more query; any failure gives \<open>None\<close>.
\<close>

definition gain_second_attempt :: "session \<Rightarrow> (nat option \<times> session) option" where
  "gain_second_attempt s =
     (let s0 = sleep_ms 500 s in
      if \<not> is_connected s0 then Some (None, s0)
      else case send_command s0 gain_command of
        None \<Rightarrow> None
      | Some (Inl e, s1) \<Rightarrow> Some (None, s1)
      | Some (Inr response, s1) \<Rightarrow>
          (case parse_gain response of
             None \<Rightarrow> Some (None, s1)
           | Some g \<Rightarrow> Some (Some g, s1\<lparr>gain := Some g\<rparr>)))"

text \<open>
  \<open>connect\<close> and \<open>get_current_gain\<close> call each other: \<open>connect\<close> queries the gain
  once the port is open, and the first attempt of \<open>get_current_gain\<close>, when
  \<open>send_command\<close> has failed and cleared \<open>self.ser\<close>, calls
  \<open>connect(self.last_port)\<close>. The first argument bounds the depth of these calls;
  \<open>None\<close> when it is used up.

  \<open>connect\<close>: the port must be listed; \<open>disconnect\<close> is called outside the \<open>try\<close>;
  \<open>serial.Serial(...)\<close> may raise \<open>SerialException\<close> or \<open>IOError\<close> (result
  \<open>False\<close>) or something else (not caught); then \<open>last_port\<close> is set, half a second is
  slept and the gain is queried, whatever that gives.
\<close>

fun connect :: "nat \<Rightarrow> string \<Rightarrow> session \<Rightarrow> ((exn + bool) \<times> session) option"
  and get_current_gain :: "nat \<Rightarrow> session \<Rightarrow> (nat option \<times> session) option" where
  "connect d port s =
     (if port \<notin> set (ports s) then Some (Inr False, s)
      else case disconnect s of
        None \<Rightarrow> None
      | Some (Inl e, s1) \<Rightarrow> Some (Inl e, s1)
      | Some (Inr closed, s1) \<Rightarrow>
          if next_reply s1 = SerialError then Some (Inr False, (step s1)\<lparr>ser := None\<rparr>)
          else if next_reply s1 = OtherError then Some (Inl OtherException, step s1)
          else (case get_current_gain d
                  (sleep_ms 500
                    ((step s1)\<lparr>ser := Some \<lparr>pname = port, is_open = True\<rparr>,
                       last_port := Some port, io_log := io_log s1 @ [Opened port]\<rparr>)) of
                  None \<Rightarrow> None
                | Some (g, s2) \<Rightarrow> Some (Inr True, s2)))"
| "get_current_gain 0 s = None"
| "get_current_gain (Suc d) s =
     (if \<not> is_connected s then Some (None, s)
      else case send_command s gain_command of
        None \<Rightarrow> None
      | Some (Inr response, s1) \<Rightarrow>
          (case parse_gain response of
             Some g \<Rightarrow> Some (Some g, s1\<lparr>gain := Some g\<rparr>)
           | None \<Rightarrow> gain_second_attempt s1)
      | Some (Inl e, s1) \<Rightarrow>
          (case (ser s1, last_port s1) of
             (None, Some port) \<Rightarrow>
               (case connect d port s1 of
                  None \<Rightarrow> None
                | Some (r, s2) \<Rightarrow> gain_second_attempt s2)
           | _ \<Rightarrow> gain_second_attempt s1))"

text \<open>
  \<open>read_card_once\<close>. The response is parsed as a card when it has at least 22 bytes and
  starts \<open>BB 02 22\<close>. When \<open>send_command\<close> fails and the port is gone,
  \<open>connect(self.last_port)\<close> is tried, its outcome ignored.
\<close>

definition parse_read_once :: "byte list \<Rightarrow> card_info option" where
  "parse_read_once response =
     (if response = [] then None
      else if length response < 8 then None
      else if startswith response [0xBB, 0x02, 0x22] then
        (if length response < 22 then None else Some (parse_card response))
      else None)"

definition read_card_once :: "nat \<Rightarrow> session \<Rightarrow> (card_info option \<times> session) option" where
  "read_card_once d s =
     (if \<not> is_connected s then Some (None, s)
      else case send_command s read_once_command of
        None \<Rightarrow> None
      | Some (Inr response, s1) \<Rightarrow> Some (parse_read_once response, s1)
      | Some (Inl e, s1) \<Rightarrow>
          if \<not> is_connected s1 then
            (case last_port s1 of
               None \<Rightarrow> Some (None, s1)
             | Some port \<Rightarrow>
                 (case connect d port s1 of
                    None \<Rightarrow> None
                  | Some (r, s2) \<Rightarrow> Some (None, s2)))
          else Some (None, s1))"

text \<open>
  \<open>set_select_mode\<close>: the frame is built outside the \<open>try\<close>, so its \<open>ValueError\<close>
  is not caught; the response is accepted when it is \<open>BB 01 12 00 01 00 xx 7E\<close>.
\<close>

definition select_mode_response_ok :: "byte list \<Rightarrow> bool" where
  "select_mode_response_ok response \<longleftrightarrow>
     response \<noteq> [] \<and> 8 \<le> length response \<and> response ! 0 = 0xBB \<and> response ! 1 = 0x01 \<and>
     response ! 2 = 0x12 \<and> response ! 3 = 0x00 \<and> response ! 4 = 0x01 \<and> response ! 5 = 0x00 \<and>
     response ! 7 = 0x7E"

definition set_select_mode :: "int \<Rightarrow> session \<Rightarrow> ((exn + bool) \<times> session) option" where
  "set_select_mode mode s =
     (if \<not> is_connected s then Some (Inr False, s)
      else case set_select_mode_command mode of
        Inl e \<Rightarrow> Some (Inl e, s)
      | Inr command \<Rightarrow>
          (case send_command s command of
             None \<Rightarrow> None
           | Some (Inl e, s1) \<Rightarrow> Some (Inr False, s1)
           | Some (Inr response, s1) \<Rightarrow>
               if select_mode_response_ok response
               then Some (Inr True, s1\<lparr>select_mode := mode\<rparr>)
               else Some (Inr False, s1)))"

text \<open>
  \<open>set_select_params\<close>. \<open>if target_epc:\<close> is false for \<open>None\<close> and for the empty
  string: both clear the Select (mode \<open>0x01\<close> is sent). Otherwise the EPC is decoded
  and checked before anything is sent; every exception in that branch gives \<open>False\<close>.
\<close>

definition select_params_response_ok :: "byte list \<Rightarrow> bool" where
  "select_params_response_ok response \<longleftrightarrow>
     response \<noteq> [] \<and> 8 \<le> length response \<and> response ! 0 = 0xBB \<and> response ! 1 = 0x01 \<and>
     response ! 2 = 0x0C \<and> response ! 3 = 0x00 \<and> response ! 4 = 0x01 \<and> response ! 5 = 0x00"

definition truthy :: "string option \<Rightarrow> bool" where
  "truthy target_epc \<longleftrightarrow> (case target_epc of None \<Rightarrow> False | Some e \<Rightarrow> e \<noteq> [])"

definition set_select_params :: "string option \<Rightarrow> session \<Rightarrow> ((exn + bool) \<times> session) option" where
  "set_select_params target_epc s =
     (if \<not> is_connected s then Some (Inr False, s)
      else if truthy target_epc then
        (case fromhex (remove_spaces (the target_epc)) of
           None \<Rightarrow> Some (Inr False, s)
         | Some epc_bytes \<Rightarrow>
             if length epc_bytes \<noteq> 12 then Some (Inr False, s)
             else (case send_command s (set_select_params_command epc_bytes) of
                None \<Rightarrow> None
              | Some (Inl e, s1) \<Rightarrow> Some (Inr False, s1)
              | Some (Inr response, s1) \<Rightarrow>
                  if select_params_response_ok response then
                    (case set_select_mode 0x02 (s1\<lparr>select_param := target_epc\<rparr>) of
                       None \<Rightarrow> None
                     | Some (Inl e, s2) \<Rightarrow> Some (Inr False, s2)
                     | Some (Inr r, s2) \<Rightarrow> Some (Inr True, s2))
                  else Some (Inr False, s1)))
      else (case set_select_mode 0x01 s of
          None \<Rightarrow> None
        | Some (Inl e, s1) \<Rightarrow> Some (Inl e, s1)
        | Some (Inr r, s1) \<Rightarrow> Some (Inr True, s1\<lparr>select_param := None\<rparr>)))"

subsection \<open>Example sessions\<close>

text \<open>
  A script given by its first replies (\<open>Quiet\<close> ever after), and the replies of one
  exchange that the device answers with the frame \<open>f\<close>: the buffer reset and the
  write succeed, then the bytes of \<open>f\<close> arrive one by one.
\<close>

definition script_of :: "reply list \<Rightarrow> nat \<Rightarrow> reply" where
  "script_of rs t = (if t < length rs then rs ! t else Quiet)"

definition answer :: "byte list \<Rightarrow> reply list" where
  "answer f = [Quiet, Quiet] @ map Avail f"

text \<open>
  A session for the examples: connected to \<open>COM3\<close>, not reading, with a cached gain
  of 20 dBm and a Select mask in force, and a device that never answers.
\<close>

definition quiet_session :: session where
  "quiet_session =
     \<lparr> ser = Some \<lparr>pname = ''COM3'', is_open = True\<rparr>, group_read_active = False,
       read_thread = False, current_power = None, gain = Some 2000, select_mode = 0x02,
       select_param = Some ''AA BB CC DD EE FF 11 22 33 44 55 66'', last_port = Some ''COM3'',
       ports = [''COM3''],
       script = (\<lambda>t. Quiet), tick = 0, io_log = [], slept_ms = 0 \<rparr>"

subsection \<open>What an exchange with the device may change\<close>

text \<open>
  \<open>only_clock s s'\<close>: nothing but the script position and the time slept differs.
  \<open>sent_only s s'\<close>: besides those, frames may have been written and the port handle
  may have been dropped; no port was opened or closed and no cached value was touched.
\<close>

definition only_clock :: "session \<Rightarrow> session \<Rightarrow> bool" where
  "only_clock s s' \<longleftrightarrow>
     ser s' = ser s \<and> group_read_active s' = group_read_active s \<and>
     read_thread s' = read_thread s \<and> current_power s' = current_power s \<and>
     gain s' = gain s \<and> select_mode s' = select_mode s \<and> select_param s' = select_param s \<and>
     last_port s' = last_port s \<and> ports s' = ports s \<and> script s' = script s \<and>
     io_log s' = io_log s"

definition wait_post :: "session \<Rightarrow> (exn + byte list) \<times> session \<Rightarrow> bool" where
  "wait_post s y \<longleftrightarrow>
     only_clock s (snd y) \<and>
     ((\<exists>response. fst y = Inr response) \<or> fst y = Inl SerialException \<or>
      fst y = Inl OtherException)"

definition sent_only :: "session \<Rightarrow> session \<Rightarrow> bool" where
  "sent_only s s' \<longleftrightarrow>
     (ser s' = ser s \<or> ser s' = None) \<and> group_read_active s' = group_read_active s \<and>
     read_thread s' = read_thread s \<and> current_power s' = current_power s \<and>
     gain s' = gain s \<and> select_mode s' = select_mode s \<and> select_param s' = select_param s \<and>
     last_port s' = last_port s \<and> ports s' = ports s \<and> script s' = script s \<and>
     (\<exists>frames. io_log s' = io_log s @ map Wrote frames)"

text \<open>
  The errors of \<open>send_command\<close> that come from the transport: a \<open>SerialException\<close>
  during the exchange, or a last attempt that found the input buffer impossible to reset
  or the port closed.
\<close>

definition transport_error :: "exn \<Rightarrow> bool" where
  "transport_error e \<longleftrightarrow>
     e = RFIDDeviceError CommFailed \<or>
     e = RFIDDeviceError (SendFailed (RFIDDeviceError ConnectionLost)) \<or>
     e = RFIDDeviceError (SendFailed (RFIDDeviceError ConnectionClosed))"

definition send_post :: "session \<Rightarrow> (exn + byte list) \<times> session \<Rightarrow> bool" where
  "send_post s y \<longleftrightarrow>
     sent_only s (snd y) \<and>
     (case fst y of
        Inr response \<Rightarrow> ser (snd y) = ser s \<and> ser s \<noteq> None
      | Inl e \<Rightarrow> (\<exists>m. e = RFIDDeviceError m) \<and> (transport_error e \<longrightarrow> ser (snd y) = None))"

text \<open>
  A session that is reading, with a device that answers the next exchange with the
  frame \<open>BB 01 28 00 01 00 2A 7E\<close>; and one that is reading when the device is
  unplugged: the next write raises \<open>SerialException\<close>.
\<close>

definition stop_response :: "byte list" where
  "stop_response = [0xBB, 0x01, 0x28, 0x00, 0x01, 0x00, 0x2A, 0x7E]"

definition reading_session :: session where
  "reading_session =
     quiet_session\<lparr>group_read_active := True, read_thread := True,
       script := script_of (answer stop_response)\<rparr>"

definition unplugged_session :: session where
  "unplugged_session =
     quiet_session\<lparr>group_read_active := True, read_thread := True,
       script := script_of [Quiet, SerialError]\<rparr>"

text \<open>
  A session whose device answers the next exchange with the frame
  \<open>BB 01 12 00 01 00 14 7E\<close>, the acknowledgement of a Select mode command.
\<close>

definition select_mode_response :: "byte list" where
  "select_mode_response = [0xBB, 0x01, 0x12, 0x00, 0x01, 0x00, 0x14, 0x7E]"

definition select_session :: session where
  "select_session = quiet_session\<lparr>script := script_of (answer select_mode_response)\<rparr>"

text \<open>
  A session on whose port a byte \<open>00\<close> is waiting at every poll and \<open>7E\<close> never
  comes (a line held low, a device at another baud rate).
\<close>

definition chatty_session :: session where
  "chatty_session = quiet_session\<lparr>script := (\<lambda>t. Avail 0x00)\<rparr>"

text \<open>
  A session on which the next write raises \<open>SerialException\<close>, while the port can
  be opened again right after and the device then answers the gain query with
  \<open>BB 01 B7 00 02 0A 28 EC 7E\<close> (26 dBm); and the state it is in once that has
  happened.
\<close>

definition gain_response :: "byte list" where
  "gain_response = [0xBB, 0x01, 0xB7, 0x00, 0x02, 0x0A, 0x28, 0xEC, 0x7E]"

definition glitch_session :: session where
  "glitch_session =
     quiet_session\<lparr>script := script_of ([Quiet, SerialError, Quiet] @ answer gain_response)\<rparr>"

definition reconnected_session :: session where
  "reconnected_session =
     glitch_session\<lparr>tick := 14, ser := Some \<lparr>pname = ''COM3'', is_open = True\<rparr>,
       io_log := [Opened ''COM3'', Wrote gain_command], slept_ms := 500, gain := Some 2600\<rparr>"

(*PROPERTIES*)
section \<open>Properties of the decoders\<close>

subsection \<open>Checksums as sums of bytes\<close>

lemma and_255_mod: "(n::nat) AND 0xFF = n mod 256"
proof -
  have "n AND mask 8 = take_bit 8 n" by (simp add: take_bit_eq_mask)
  then show ?thesis by (simp add: take_bit_eq_mod mask_eq_exp_minus_1)
qed

lemma of_nat_sum_bytes: "(of_nat (sum_bytes xs) :: byte) = sum_list xs"
  by (induction xs) (simp_all add: sum_bytes_def)

lemma of_nat_mod_256: "(of_nat (n mod 256) :: byte) = of_nat n"
  by (simp add: word_of_nat_eq_iff take_bit_eq_mod)

lemma sum_bytes_mod_eq_iff:
  "sum_bytes xs mod 256 = unat (b::byte) \<longleftrightarrow> sum_list xs = b"
proof
  assume "sum_bytes xs mod 256 = unat b"
  then have "(of_nat (sum_bytes xs mod 256) :: byte) = of_nat (unat b)" by simp
  then show "sum_list xs = b"
    by (simp add: of_nat_mod_256 of_nat_sum_bytes)
next
  assume "sum_list xs = b"
  then have "unat b = unat (of_nat (sum_bytes xs) :: byte)" by (simp add: of_nat_sum_bytes)
  then show "sum_bytes xs mod 256 = unat b"
    by (simp add: unat_of_nat)
qed

lemma sum_list_update_word:
  "i < length xs \<Longrightarrow> sum_list (xs[i := v]) = sum_list xs + v - xs ! (i::nat)" for xs :: "byte list"
proof (induction xs arbitrary: i)
  case Nil then show ?case by simp
next
  case (Cons x xs) then show ?case by (cases i) simp_all
qed

lemma slice_update:
  "a \<le> i \<Longrightarrow> i < b \<Longrightarrow> py_slice a b (xs[i := v]) = (py_slice a b xs)[i - a := v]"
  by (simp add: py_slice_def drop_update_swap take_update_swap)

lemma slice_nth: "a + k < b \<Longrightarrow> b \<le> length xs \<Longrightarrow> py_slice a b xs ! k = xs ! (a + k)"
  by (simp add: py_slice_def)

lemma length_slice: "length (py_slice a b xs) = min (b - a) (length xs - a)"
  by (simp add: py_slice_def)

lemma checksum_corrupt:
  assumes "card_frame_ok f" "5 \<le> i" "i \<le> 21" "v \<noteq> f ! i"
  shows "sum_bytes (py_slice 1 22 (f[i := v])) AND 0xFF \<noteq> unat (f[i := v] ! 22)"
proof -
  from assms have len: "length f = 24" by (simp add: card_frame_ok_def)
  from assms have ok: "sum_list (py_slice 1 22 f) = f ! 22"
    by (simp add: card_frame_ok_def sum_bytes_mod_eq_iff [symmetric])
  have sl: "py_slice 1 22 (f[i := v]) = (py_slice 1 22 f)[i - 1 := v]"
    using assms by (simp add: slice_update)
  have "sum_list ((py_slice 1 22 f)[i - 1 := v]) = sum_list (py_slice 1 22 f) + v - py_slice 1 22 f ! (i - 1)"
    using assms len by (intro sum_list_update_word) (simp add: length_slice)
  also have "py_slice 1 22 f ! (i - 1) = f ! i"
    using assms len by (simp add: slice_nth)
  finally have "sum_list (py_slice 1 22 (f[i := v])) \<noteq> f ! 22"
    using ok assms(4) sl by simp
  moreover have "f[i := v] ! 22 = f ! 22" using assms by simp
  ultimately show ?thesis
    by (simp add: and_255_mod sum_bytes_mod_eq_iff)
qed

lemma card_frame_ok_update:
  assumes "card_frame_ok f" "5 \<le> i" "i \<le> 21"
  shows "length (f[i := v]) = 24" "f[i := v] ! 0 = 0xBB" "f[i := v] ! 1 = 0x02"
    "f[i := v] ! 2 = 0x22 \<or> f[i := v] ! 2 = 0x27" "f[i := v] ! 3 = 0" "f[i := v] ! 4 = 0x11"
    "f[i := v] ! 23 = 0x7E"
  using assms by (simp_all add: card_frame_ok_def)

lemma scan_core_packet:
  assumes "length p = 24" "p ! 0 = 0xBB" "p ! 1 = 0x02" "p ! 2 = 0x22 \<or> p ! 2 = 0x27"
    "p ! 3 = 0" "p ! 4 = 0x11" "p ! 23 = 0x7E"
  shows "scan_core l (p @ rest) =
     (if sum_bytes (py_slice 1 22 p) AND 0xFF \<noteq> unat (p ! 22) then scan_core l rest
      else emit (CardEvent (parse_card p)) (scan_core False rest))"
  using assms by (subst scan_core.simps) (auto simp: nth_append)

lemma scan_handler_packet:
  assumes "length p = 24" "p ! 0 = 0xBB" "p ! 1 = 0x02" "p ! 2 = 0x22 \<or> p ! 2 = 0x27"
    "p ! 3 = 0" "p ! 4 = 0x11" "p ! 23 = 0x7E"
  shows "scan_handler (p @ rest) =
     (if sum_bytes (py_slice 1 22 p) AND 0xFF \<noteq> unat (p ! 22) then scan_handler rest
      else emit (CardEvent (parse_card p)) (scan_handler rest))"
  using assms by (subst scan_handler.simps) (auto simp: nth_append)

lemma scan_core_Nil: "scan_core l [] = ([], l, [])"
  by (subst scan_core.simps) simp

lemma scan_handler_Nil: "scan_handler [] = ([], [])"
  by (subst scan_handler.simps) simp

lemma scan_core_good:
  assumes "card_frame_ok g"
  shows "scan_core l (g @ rest) = emit (CardEvent (parse_card g)) (scan_core False rest)"
proof -
  from assms have "sum_bytes (py_slice 1 22 g) AND 0xFF = unat (g ! 22)"
    by (simp add: card_frame_ok_def and_255_mod)
  with assms show ?thesis
    by (subst scan_core_packet) (simp_all add: card_frame_ok_def)
qed

lemma scan_handler_good:
  assumes "card_frame_ok g"
  shows "scan_handler (g @ rest) = emit (CardEvent (parse_card g)) (scan_handler rest)"
proof -
  from assms have "sum_bytes (py_slice 1 22 g) AND 0xFF = unat (g ! 22)"
    by (simp add: card_frame_ok_def and_255_mod)
  with assms show ?thesis
    by (subst scan_handler_packet) (simp_all add: card_frame_ok_def)
qed

lemma scan_core_corrupt:
  assumes "card_frame_ok f" "5 \<le> i" "i \<le> 21" "v \<noteq> f ! i"
  shows "scan_core l (f[i := v] @ rest) = scan_core l rest"
  using card_frame_ok_update [OF assms(1-3), of v] checksum_corrupt [OF assms]
  by (subst scan_core_packet) simp_all

lemma scan_handler_corrupt:
  assumes "card_frame_ok f" "5 \<le> i" "i \<le> 21" "v \<noteq> f ! i"
  shows "scan_handler (f[i := v] @ rest) = scan_handler rest"
  using card_frame_ok_update [OF assms(1-3), of v] checksum_corrupt [OF assms]
  by (subst scan_handler_packet) simp_all

subsection \<open>The decoding example\<close>

lemma literal_frame_ok: "card_frame_ok literal_frame"
  unfolding card_frame_ok_def literal_frame_def by (simp add: py_slice_def sum_bytes_def)

lemma parse_card_literal: "parse_card literal_frame = literal_card"
  by (simp add: literal_frame_def literal_card_def parse_card_def py_slice_def hex2_def
      hexdigit_def rssi_dbm_def str_int_def)

lemma scan_core_literal: "scan_core False literal_frame = ([CardEvent literal_card], False, [])"
  using scan_core_good [OF literal_frame_ok, of False "[]"]
  by (simp add: scan_core_Nil parse_card_literal)

lemma scan_handler_literal: "scan_handler literal_frame = ([CardEvent literal_card], [])"
  using scan_handler_good [OF literal_frame_ok, of "[]"]
  by (simp add: scan_handler_Nil parse_card_literal)

text \<open>
  C1. Fed the 24 bytes of the example in one read, either decoder thread delivers exactly
  one card event, with rssi \<open>-48\<close>, pc \<open>30 00\<close>, epc
  \<open>AA BB CC DD EE FF 11 22 33 44 55 66\<close> and crc \<open>12 34\<close>; the RSSI of a raw byte
  \<open>v\<close> is \<open>-(256 - v)\<close> when \<open>v > 127\<close> and \<open>-v\<close> otherwise.
\<close>

theorem literal_frame_decoded:
  "read_thread_func [Data literal_frame] = [CardEvent literal_card]
   \<and> SerialReadThread_run [Data literal_frame] = [CardEvent literal_card]
   \<and> rssi literal_card = ''-48'' \<and> pc literal_card = ''30 00''
   \<and> epc literal_card = ''AA BB CC DD EE FF 11 22 33 44 55 66'' \<and> crc literal_card = ''12 34''
   \<and> rssi_dbm v = (if 127 < uint v then uint v - 256 else - uint v)"
proof -
  have "literal_frame \<noteq> []" by (simp add: literal_frame_def)
  then show ?thesis
    by (simp add: read_thread_func_def SerialReadThread_run_def scan_core_literal
        scan_handler_literal literal_card_def rssi_dbm_def)
qed

subsection \<open>Corrupted frames\<close>

text \<open>
  C2. Take a well-formed card frame \<open>f\<close> and overwrite one payload byte (offset 5 to 21)
  with a different value, leaving the checksum byte alone. Either decoder thread, fed the
  corrupted frame, delivers nothing at all (no card, no missed read, no thread error);
  fed the corrupted frame followed by a well-formed frame \<open>g\<close> in the same read, it
  delivers exactly the card of \<open>g\<close>.
\<close>

theorem corrupt_frame_dropped:
  assumes "card_frame_ok f" "card_frame_ok g" "5 \<le> i" "i \<le> 21" "v \<noteq> f ! i"
  shows "read_thread_func [Data (f[i := v])] = []
       \<and> read_thread_func [Data (f[i := v] @ g)] = [CardEvent (parse_card g)]
       \<and> SerialReadThread_run [Data (f[i := v])] = []
       \<and> SerialReadThread_run [Data (f[i := v] @ g)] = [CardEvent (parse_card g)]"
proof -
  have ne: "f[i := v] \<noteq> []" using assms by (auto simp: card_frame_ok_def)
  have c1: "scan_core False (f[i := v]) = ([], False, [])"
    using scan_core_corrupt [OF assms(1,3,4,5), of False "[]"] by (simp add: scan_core_Nil)
  have c2: "scan_core False (f[i := v] @ g) = ([CardEvent (parse_card g)], False, [])"
    using scan_core_corrupt [OF assms(1,3,4,5), of False g] scan_core_good [OF assms(2), of False "[]"]
    by (simp add: scan_core_Nil)
  have h1: "scan_handler (f[i := v]) = ([], [])"
    using scan_handler_corrupt [OF assms(1,3,4,5), of "[]"] by (simp add: scan_handler_Nil)
  have h2: "scan_handler (f[i := v] @ g) = ([CardEvent (parse_card g)], [])"
    using scan_handler_corrupt [OF assms(1,3,4,5), of g] scan_handler_good [OF assms(2), of "[]"]
    by (simp add: scan_handler_Nil)
  show ?thesis
    using ne c1 c2 h1 h2 by (simp add: read_thread_func_def SerialReadThread_run_def)
qed

theorem corrupt_frame_dropped_witness:
  "card_frame_ok literal_frame \<and> (5::nat) \<le> 5 \<and> (5::nat) \<le> 21 \<and> (0x31::byte) \<noteq> literal_frame ! 5
   \<and> read_thread_func [Data (literal_frame[5 := 0x31])] = []
   \<and> read_thread_func [Data (literal_frame[5 := 0x31] @ literal_frame)] = [CardEvent literal_card]
   \<and> SerialReadThread_run [Data (literal_frame[5 := 0x31])] = []
   \<and> SerialReadThread_run [Data (literal_frame[5 := 0x31] @ literal_frame)] = [CardEvent literal_card]"
proof -
  have ne: "(0x31::byte) \<noteq> literal_frame ! 5" by (simp add: literal_frame_def)
  have card: "parse_card literal_frame = literal_card"
    by (rule parse_card_literal)
  show ?thesis
    using corrupt_frame_dropped [OF literal_frame_ok literal_frame_ok _ _ ne] ne
    by (simp add: literal_frame_ok card)
qed

subsection \<open>Checksums of built commands\<close>

lemma unat_checksum_byte: "unat (word_of_nat (n mod 256) :: byte) = n mod 256"
  by (simp add: unat_of_nat)

lemma checksum_ok_append:
  assumes "xs \<noteq> []"
  shows "checksum_ok (xs @ [word_of_nat (sum_bytes (drop 1 xs) mod 256), 0x7E])"
proof -
  have "py_slice 1 (length xs) (xs @ [word_of_nat (sum_bytes (drop 1 xs) mod 256), 0x7E]) = drop 1 xs"
    using assms by (cases xs) (simp_all add: py_slice_def)
  then show ?thesis
    by (simp add: checksum_ok_def nth_append unat_checksum_byte)
qed

lemma set_select_mode_command_ok:
  assumes "0 \<le> mode" "mode < 256"
  shows "\<exists>command. set_select_mode_command mode = Inr command \<and> checksum_ok command
     \<and> length command = 8 \<and> uint (command ! 5) = mode"
proof -
  let ?c = "[0xBB, 0x00, 0x12, 0x00, 0x01, word_of_int mode] :: byte list"
  have "py_slice 1 6 ?c = drop 1 ?c" by (simp add: py_slice_def)
  moreover have "checksum_ok (?c @ [word_of_nat (sum_bytes (drop 1 ?c) mod 256), 0x7E])"
    by (rule checksum_ok_append) simp
  moreover have "uint (word_of_int mode :: byte) = mode"
    using assms by (simp add: uint_word_of_int take_bit_eq_mod)
  ultimately show ?thesis
    using assms by (simp add: set_select_mode_command_def Let_def and_255_mod)
qed

lemma set_select_params_command_ok:
  assumes "length epc_bytes = 12"
  shows "checksum_ok (set_select_params_command epc_bytes)"
proof -
  let ?c = "[0xBB, 0x00, 0x0C, 0x00, 0x13, 0x01, 0x00, 0x00, 0x00, 0x20, 0x60, 0x00] @ epc_bytes"
  have "py_slice 1 24 ?c = drop 1 ?c" using assms by (simp add: py_slice_def)
  moreover have "checksum_ok (?c @ [word_of_nat (sum_bytes (drop 1 ?c) mod 256), 0x7E])"
    by (rule checksum_ok_append) simp
  ultimately show ?thesis
    by (simp add: set_select_params_command_def Let_def and_255_mod)
qed

lemma write_epc_command_ok:
  assumes "write_epc_command new_epc access_password = Some command"
  shows "checksum_ok command"
proof -
  from assms obtain epc_bytes pwd_bytes where
    c: "command = ([0xBB, 0x00, 0x49, 0x00, 0x11] @ pwd_bytes @ [0x01, 0x02, 0x00, 0x06] @ epc_bytes)
        @ [word_of_nat (sum_bytes (drop 1 ([0xBB, 0x00, 0x49, 0x00, 0x11] @ pwd_bytes @ [0x01, 0x02, 0x00, 0x06] @ epc_bytes)) mod 256), 0x7E]"
    by (auto simp: write_epc_command_def Let_def split: option.splits if_splits)
  show ?thesis unfolding c by (rule checksum_ok_append) simp
qed

lemma read_tag_memory_command_ok:
  assumes "read_tag_memory_command access_password membank start_addr length_words = Some command"
  shows "checksum_ok command"
proof -
  from assms obtain xs where
    c: "command = (0xBB # xs) @ [word_of_nat (sum_bytes (drop 1 (0xBB # xs)) mod 256), 0x7E]"
    by (auto simp: read_tag_memory_command_def Let_def and_255_mod split: option.splits)
  show ?thesis unfolding c by (rule checksum_ok_append) simp
qed

lemma frame_append_facts:
  assumes "length c = n"
  shows "length (c @ [k, e]) = n + 2" "take n (c @ [k, e]) = c" "(c @ [k, e]) ! (n + 1) = e"
  using assms by (simp_all add: nth_append)

lemma write_epc_command_total:
  assumes "fromhex (remove_spaces new_epc) = Some epc_bytes" "length epc_bytes = 12"
    "access_password_bytes access_password = Some pwd_bytes"
  shows "\<exists>command. write_epc_command new_epc access_password = Some command
     \<and> checksum_ok command \<and> length command = 27
     \<and> take 25 command = [0xBB, 0x00, 0x49, 0x00, 0x11] @ pwd_bytes @ [0x01, 0x02, 0x00, 0x06] @ epc_bytes
     \<and> command ! 26 = 0x7E"
proof -
  from assms(3) have l: "length pwd_bytes = 4"
    by (auto simp: access_password_bytes_def Let_def split: option.splits if_splits)
  define c where "c = [0xBB, 0x00, 0x49, 0x00, 0x11] @ pwd_bytes @ [0x01, 0x02, 0x00, 0x06] @ epc_bytes"
  define k :: byte where "k = word_of_nat (sum_bytes (drop 1 c) mod 256)"
  have w: "write_epc_command new_epc access_password = Some (c @ [k, 0x7E])"
    using assms by (simp add: write_epc_command_def Let_def c_def k_def)
  have lc: "length c = 25" using l assms(2) by (simp add: c_def)
  then have "c \<noteq> []" by auto
  then have ok: "checksum_ok (c @ [k, 0x7E])" unfolding k_def by (rule checksum_ok_append)
  from frame_append_facts [OF lc, of k "0x7E"]
  have "length (c @ [k, 0x7E]) = 27" "take 25 (c @ [k, 0x7E]) = c" "(c @ [k, 0x7E]) ! 26 = 0x7E"
    by simp_all
  with w ok show ?thesis unfolding c_def [symmetric] by blast
qed

lemma read_tag_memory_command_total:
  assumes "access_password_bytes access_password = Some pwd_bytes"
  shows "\<exists>command. read_tag_memory_command access_password membank start_addr length_words
       = Some command
     \<and> checksum_ok command \<and> length command = 16
     \<and> take 9 command = [0xBB, 0x00, 0x39, 0x00, 0x09] @ pwd_bytes
     \<and> command ! 15 = 0x7E"
proof -
  from assms have l: "length pwd_bytes = 4"
    by (auto simp: access_password_bytes_def Let_def split: option.splits if_splits)
  define args :: "byte list" where "args = [word_of_int (membank AND 0xFF),
                    word_of_int (start_addr AND 0xFF),
                    word_of_int (drop_bit 8 start_addr AND 0xFF),
                    word_of_int (length_words AND 0xFF),
                    word_of_int (drop_bit 8 length_words AND 0xFF)]"
  define c where "c = ([0xBB, 0x00, 0x39, 0x00, 0x09] @ pwd_bytes) @ args"
  define k :: byte where "k = word_of_nat (sum_bytes (drop 1 c) mod 256)"
  have w: "read_tag_memory_command access_password membank start_addr length_words
      = Some (c @ [k, 0x7E])"
    using assms by (simp add: read_tag_memory_command_def Let_def and_255_mod c_def k_def args_def)
  have lc: "length c = 14" using l by (simp add: c_def args_def)
  then have "c \<noteq> []" by auto
  then have ok: "checksum_ok (c @ [k, 0x7E])" unfolding k_def by (rule checksum_ok_append)
  have "take 9 (c @ [k, 0x7E]) = [0xBB, 0x00, 0x39, 0x00, 0x09] @ pwd_bytes"
    using l by (simp add: c_def)
  moreover from frame_append_facts [OF lc, of k "0x7E"]
  have "length (c @ [k, 0x7E]) = 16" "(c @ [k, 0x7E]) ! 15 = 0x7E"
    by simp_all
  ultimately show ?thesis using w ok by blast
qed

text \<open>
  C3. Every command builder yields a frame for its valid arguments, and the frame
  carries, in its second-to-last byte, the sum of the bytes from index 1 to the last
  payload byte, modulo 256: \<open>set_select_mode\<close> for any mode byte,
  \<open>set_select_params\<close> for any 12-byte EPC, \<open>write_epc\<close> for any EPC string
  that decodes to 12 bytes and any password that gives 4 bytes (27 bytes:
  \<open>BB 00 49 00 11\<close>, password, \<open>01 02 00 06\<close>, EPC, checksum, \<open>7E\<close>),
  \<open>read_tag_memory\<close> for any password that gives 4 bytes and any integers (16 bytes:
  \<open>BB 00 39 00 09\<close>, password, five argument bytes, checksum, \<open>7E\<close>). Whatever
  the arguments, a frame that \<open>write_epc\<close> or \<open>read_tag_memory\<close> builds has that
  checksum.
\<close>

theorem command_checksums:
  "(0 \<le> mode \<and> mode < 256 \<longrightarrow>
      (\<exists>command. set_select_mode_command mode = Inr command \<and> checksum_ok command))
   \<and> (length epc_bytes = 12 \<longrightarrow> checksum_ok (set_select_params_command epc_bytes))
   \<and> (fromhex (remove_spaces new_epc) = Some new_epc_bytes \<and> length new_epc_bytes = 12
        \<and> access_password_bytes access_password = Some pwd_bytes \<longrightarrow>
        (\<exists>command. write_epc_command new_epc access_password = Some command
           \<and> checksum_ok command \<and> length command = 27
           \<and> take 25 command
               = [0xBB, 0x00, 0x49, 0x00, 0x11] @ pwd_bytes @ [0x01, 0x02, 0x00, 0x06]
                 @ new_epc_bytes
           \<and> command ! 26 = 0x7E))
   \<and> (access_password_bytes password = Some password_bytes \<longrightarrow>
        (\<exists>command. read_tag_memory_command password membank start_addr length_words
             = Some command
           \<and> checksum_ok command \<and> length command = 16
           \<and> take 9 command = [0xBB, 0x00, 0x39, 0x00, 0x09] @ password_bytes
           \<and> command ! 15 = 0x7E))
   \<and> (write_epc_command new_epc access_password = Some c1 \<longrightarrow> checksum_ok c1)
   \<and> (read_tag_memory_command password membank start_addr length_words = Some c2 \<longrightarrow>
        checksum_ok c2)"
  using set_select_mode_command_ok [of mode] set_select_params_command_ok [of epc_bytes]
    write_epc_command_total [of new_epc new_epc_bytes access_password pwd_bytes]
    read_tag_memory_command_total [of password password_bytes membank start_addr length_words]
    write_epc_command_ok [of new_epc access_password c1]
    read_tag_memory_command_ok [of password membank start_addr length_words c2]
  by blast

lemma fromhex_example:
  "fromhex ''AABBCCDDEEFF112233445566''
     = Some [0xAA, 0xBB, 0xCC, 0xDD, 0xEE, 0xFF, 0x11, 0x22, 0x33, 0x44, 0x55, 0x66]"
  by (simp add: isspace_def hexval_def)

lemma zfill_example: "zfill 8 ''1234'' = ''00001234''"
  by (simp add: zfill_def numeral_eq_Suc)

lemma write_epc_command_example:
  "write_epc_command ''AA BB CC DD EE FF 11 22 33 44 55 66'' ''1234''
     = Some [0xBB, 0x00, 0x49, 0x00, 0x11, 0x00, 0x00, 0x12, 0x34, 0x01, 0x02, 0x00, 0x06,
             0xAA, 0xBB, 0xCC, 0xDD, 0xEE, 0xFF, 0x11, 0x22, 0x33, 0x44, 0x55, 0x66, 0x09, 0x7E]"
  by (simp add: write_epc_command_def access_password_bytes_def zfill_example remove_spaces_def
      isspace_def hexval_def sum_bytes_def)

lemma read_tag_memory_command_example:
  "read_tag_memory_command ''00000000'' 1 2 6
     = Some [0xBB, 0x00, 0x39, 0x00, 0x09, 0x00, 0x00, 0x00, 0x00, 0x01, 0x02, 0x00, 0x06, 0x00,
             0x4B, 0x7E]"
  by (simp add: read_tag_memory_command_def access_password_bytes_def isspace_def hexval_def
      sum_bytes_def)

lemma set_select_mode_command_example:
  "set_select_mode_command 2 = Inr [0xBB, 0x00, 0x12, 0x00, 0x01, 0x02, 0x15, 0x7E]"
  by (simp add: set_select_mode_command_def py_slice_def sum_bytes_def)

lemma access_password_bytes_example:
  "access_password_bytes ''1234'' = Some [0x00, 0x00, 0x12, 0x34]"
  "access_password_bytes ''00000000'' = Some [0x00, 0x00, 0x00, 0x00]"
  "access_password_bytes [] = Some [0x00, 0x00, 0x00, 0x00]"
  by (simp_all add: access_password_bytes_def zfill_example isspace_def hexval_def)

lemma fromhex_spaced_example:
  "fromhex (remove_spaces ''AA BB CC DD EE FF 11 22 33 44 55 66'')
     = Some [0xAA, 0xBB, 0xCC, 0xDD, 0xEE, 0xFF, 0x11, 0x22, 0x33, 0x44, 0x55, 0x66]"
  by (simp add: remove_spaces_def isspace_def hexval_def)

theorem command_checksums_witness:
  "set_select_mode_command 2 = Inr [0xBB, 0x00, 0x12, 0x00, 0x01, 0x02, 0x15, 0x7E]
   \<and> checksum_ok [0xBB, 0x00, 0x12, 0x00, 0x01, 0x02, 0x15, 0x7E]
   \<and> length [0xAA, 0xBB, 0xCC, 0xDD, 0xEE, 0xFF, 0x11, 0x22, 0x33, 0x44, 0x55, 0x66 :: byte] = 12
   \<and> checksum_ok (set_select_params_command
        [0xAA, 0xBB, 0xCC, 0xDD, 0xEE, 0xFF, 0x11, 0x22, 0x33, 0x44, 0x55, 0x66])
   \<and> fromhex (remove_spaces ''AA BB CC DD EE FF 11 22 33 44 55 66'')
       = Some [0xAA, 0xBB, 0xCC, 0xDD, 0xEE, 0xFF, 0x11, 0x22, 0x33, 0x44, 0x55, 0x66]
   \<and> access_password_bytes ''1234'' = Some [0x00, 0x00, 0x12, 0x34]
   \<and> write_epc_command ''AA BB CC DD EE FF 11 22 33 44 55 66'' ''1234''
       = Some [0xBB, 0x00, 0x49, 0x00, 0x11, 0x00, 0x00, 0x12, 0x34, 0x01, 0x02, 0x00, 0x06,
          0xAA, 0xBB, 0xCC, 0xDD, 0xEE, 0xFF, 0x11, 0x22, 0x33, 0x44, 0x55, 0x66, 0x09, 0x7E]
   \<and> checksum_ok [0xBB, 0x00, 0x49, 0x00, 0x11, 0x00, 0x00, 0x12, 0x34, 0x01, 0x02, 0x00, 0x06,
        0xAA, 0xBB, 0xCC, 0xDD, 0xEE, 0xFF, 0x11, 0x22, 0x33, 0x44, 0x55, 0x66, 0x09, 0x7E]
   \<and> access_password_bytes ''00000000'' = Some [0x00, 0x00, 0x00, 0x00]
   \<and> read_tag_memory_command ''00000000'' 1 2 6
       = Some [0xBB, 0x00, 0x39, 0x00, 0x09, 0x00, 0x00, 0x00, 0x00, 0x01, 0x02, 0x00, 0x06,
          0x00, 0x4B, 0x7E]
   \<and> checksum_ok [0xBB, 0x00, 0x39, 0x00, 0x09, 0x00, 0x00, 0x00, 0x00, 0x01, 0x02, 0x00, 0x06,
        0x00, 0x4B, 0x7E]"
  using command_checksums [of 2
      "[0xAA, 0xBB, 0xCC, 0xDD, 0xEE, 0xFF, 0x11, 0x22, 0x33, 0x44, 0x55, 0x66]"
      "''AA BB CC DD EE FF 11 22 33 44 55 66''"
      "[0xAA, 0xBB, 0xCC, 0xDD, 0xEE, 0xFF, 0x11, 0x22, 0x33, 0x44, 0x55, 0x66]"
      "''1234''" "[0x00, 0x00, 0x12, 0x34]"
      "''00000000''" "[0x00, 0x00, 0x00, 0x00]" 1 2 6
      "[0xBB, 0x00, 0x49, 0x00, 0x11, 0x00, 0x00, 0x12, 0x34, 0x01, 0x02, 0x00, 0x06,
        0xAA, 0xBB, 0xCC, 0xDD, 0xEE, 0xFF, 0x11, 0x22, 0x33, 0x44, 0x55, 0x66, 0x09, 0x7E]"
      "[0xBB, 0x00, 0x39, 0x00, 0x09, 0x00, 0x00, 0x00, 0x00, 0x01, 0x02, 0x00, 0x06,
        0x00, 0x4B, 0x7E]"]
  by (simp add: set_select_mode_command_example write_epc_command_example
      read_tag_memory_command_example access_password_bytes_example fromhex_spaced_example)

subsection \<open>The missed-read latch\<close>

lemma latch_ok_append:
  "latch_ok l (es @ es') \<longleftrightarrow> latch_ok l es \<and> latch_ok (latch_after l es) es'"
  by (induction l es rule: latch_ok.induct) auto

lemma fst_emit: "fst (emit e r) = e # fst r" and snd_emit: "snd (emit e r) = snd r"
  by (cases r; simp)+

lemma scan_core_latch:
  "latch_ok l (fst (scan_core l buf)) \<and> latch_after l (fst (scan_core l buf)) = fst (snd (scan_core l buf))"
proof (induction l buf rule: scan_core.induct)
  case (1 l buf)
  show ?case
    apply (subst (1 2 3) scan_core.simps)
    using 1 by (auto simp: fst_emit snd_emit)
qed

lemma thread_loop_core_latch: "latch_ok l (thread_loop_core l buf reads)"
proof (induction l buf reads rule: thread_loop_core.induct)
  case (3 l buf d reads)
  show ?case
  proof (cases "d = []")
    case True with 3 show ?thesis by simp
  next
    case False
    obtain es l' b' where sc: "scan_core l (buf @ d) = (es, l', b')" by (cases "scan_core l (buf @ d)")
    from scan_core_latch [of l "buf @ d"] sc have "latch_ok l es" "latch_after l es = l'" by simp_all
    moreover from 3(2) [OF False sc [symmetric]] have "latch_ok l' (thread_loop_core l' b' reads)" by simp
    ultimately show ?thesis using False sc by (simp add: latch_ok_append)
  qed
qed simp_all

lemma scan_core_error:
  "error_frame_ok f \<Longrightarrow>
   scan_core l (f @ rest) = (if \<not> l then emit MissedRead (scan_core True rest) else scan_core l rest)"
  by (subst scan_core.simps) (auto simp: error_frame_ok_def nth_append)

lemma scan_handler_error:
  "error_frame_ok f \<Longrightarrow> scan_handler (f @ rest) = emit MissedRead (scan_handler rest)"
  by (subst scan_handler.simps) (auto simp: error_frame_ok_def nth_append)

lemma scan_handler_errors:
  "\<forall>f \<in> set fs. error_frame_ok f \<Longrightarrow> scan_handler (concat fs) = (replicate (length fs) MissedRead, [])"
proof (induction fs)
  case Nil show ?case by (subst scan_handler.simps) simp
next
  case (Cons f fs) then show ?case by (simp add: scan_handler_error)
qed

lemma no_tag_frame_ok: "error_frame_ok no_tag_frame"
  by (simp add: error_frame_ok_def no_tag_frame_def)

text \<open>
  C4, as stated, fails for \<open>SerialReadThread.run\<close>: two error frames in a row give two
  \<open>read_failed\<close> signals with no card read between them.
\<close>

theorem missed_read_repeated:
  "SerialReadThread_run [Data (no_tag_frame @ no_tag_frame)] = [MissedRead, MissedRead]
   \<and> \<not> latch_ok False (SerialReadThread_run [Data (no_tag_frame @ no_tag_frame)])"
proof -
  have "no_tag_frame @ no_tag_frame \<noteq> []" by (simp add: no_tag_frame_def)
  moreover have "scan_handler (no_tag_frame @ no_tag_frame) = ([MissedRead, MissedRead], [])"
    using scan_handler_errors [of "[no_tag_frame, no_tag_frame]"] by (simp add: no_tag_frame_ok)
  ultimately show ?thesis by (simp add: SerialReadThread_run_def)
qed

text \<open>
  C4, amended. In \<open>RFIDReader._read_thread_func\<close> the missed-read notification is
  latched: over any sequence of reads, after one notification there is no further one
  until a card has been delivered. \<open>SerialReadThread.run\<close> keeps no latch: a read made
  of error frames only gives one \<open>read_failed\<close> for each of them.
\<close>

theorem missed_read_latch:
  assumes "list_all error_frame_ok fs"
  shows "latch_ok False (read_thread_func reads)
       \<and> SerialReadThread_run [Data (concat fs)] = replicate (length fs) MissedRead"
proof -
  have "latch_ok False (read_thread_func reads)"
    by (simp add: read_thread_func_def thread_loop_core_latch)
  moreover have "scan_handler (concat fs) = (replicate (length fs) MissedRead, [])"
    using assms by (intro scan_handler_errors) (simp add: list_all_iff)
  then have "SerialReadThread_run [Data (concat fs)] = replicate (length fs) MissedRead"
    by (cases "concat fs = []") (auto simp: SerialReadThread_run_def scan_handler_Nil)
  ultimately show ?thesis by simp
qed

theorem missed_read_latch_witness:
  "list_all error_frame_ok [no_tag_frame, no_tag_frame]
   \<and> read_thread_func [Data (no_tag_frame @ no_tag_frame), Data (literal_frame @ no_tag_frame)]
       = [MissedRead, CardEvent literal_card, MissedRead]
   \<and> latch_ok False
        (read_thread_func [Data (no_tag_frame @ no_tag_frame), Data (literal_frame @ no_tag_frame)])
   \<and> SerialReadThread_run [Data (concat [no_tag_frame, no_tag_frame])]
       = replicate (length [no_tag_frame, no_tag_frame]) MissedRead"
proof -
  have ok: "list_all error_frame_ok [no_tag_frame, no_tag_frame]" by (simp add: no_tag_frame_ok)
  have ne: "no_tag_frame \<noteq> []" "literal_frame \<noteq> []"
    by (simp_all add: no_tag_frame_def literal_frame_def)
  have s1: "scan_core False (no_tag_frame @ no_tag_frame) = ([MissedRead], True, [])"
    using scan_core_error [OF no_tag_frame_ok, of False "no_tag_frame"]
      scan_core_error [OF no_tag_frame_ok, of True "[]"] by (simp add: scan_core_Nil)
  have s2: "scan_core True (literal_frame @ no_tag_frame)
      = ([CardEvent literal_card, MissedRead], True, [])"
    using scan_core_good [OF literal_frame_ok, of True no_tag_frame]
      scan_core_error [OF no_tag_frame_ok, of False "[]"]
    by (simp add: scan_core_Nil parse_card_literal)
  have run: "read_thread_func [Data (no_tag_frame @ no_tag_frame), Data (literal_frame @ no_tag_frame)]
      = [MissedRead, CardEvent literal_card, MissedRead]"
    using ne s1 s2 by (simp add: read_thread_func_def)
  show ?thesis
    using missed_read_latch [OF ok,
        of "[Data (no_tag_frame @ no_tag_frame), Data (literal_frame @ no_tag_frame)]"] ok run
    by simp
qed

section \<open>Properties of the session\<close>

subsection \<open>A silent device\<close>

lemma wait_quiet:
  "w \<le> 100 \<Longrightarrow> \<forall>k < 100 - w. script s (tick s + k) = Quiet \<Longrightarrow>
   wait_for_response s w resp
     = Some (Inr resp, s\<lparr>tick := tick s + (100 - w), slept_ms := slept_ms s + 10 * (100 - w)\<rparr>)"
proof (induction "100 - w" arbitrary: w s)
  case 0
  then show ?case by (subst wait_for_response.simps) simp
next
  case (Suc n)
  from Suc.hyps(2) Suc.prems(1) have w: "w < 100" "n = 100 - (w + 1)" by simp_all
  have q: "next_reply s = Quiet"
    using Suc.prems(2) [rule_format, of 0] w by (simp add: next_reply_def)
  have "\<forall>k<100 - (w + 1). script (sleep_ms 10 (step s)) (tick (sleep_ms 10 (step s)) + k) = Quiet"
  proof (intro allI impI)
    fix k assume "k < 100 - (w + 1)"
    then show "script (sleep_ms 10 (step s)) (tick (sleep_ms 10 (step s)) + k) = Quiet"
      using Suc.prems(2) [rule_format, of "Suc k"] by (simp add: sleep_ms_def step_def)
  qed
  from Suc.hyps(1) [OF w(2) _ this] w
  have "wait_for_response (sleep_ms 10 (step s)) (w + 1) resp
     = Some (Inr resp, (sleep_ms 10 (step s))\<lparr>tick := tick (sleep_ms 10 (step s)) + (100 - (w + 1)),
          slept_ms := slept_ms (sleep_ms 10 (step s)) + 10 * (100 - (w + 1))\<rparr>)" by simp
  then show ?case
    using w q by (subst wait_for_response.simps) (simp add: sleep_ms_def step_def)
qed

lemma try_send_quiet:
  assumes "is_connected s" "\<forall>k < 102. script s (tick s + k) = Quiet"
  shows "try_send s command
     = Some (Inr [], s\<lparr>tick := tick s + 102, io_log := io_log s @ [Wrote command],
          slept_ms := slept_ms s + 1000\<rparr>)"
proof -
  from assms(1) obtain p where p: "ser s = Some p" "is_open p"
    by (auto simp: is_connected_def split: option.splits)
  have r0: "next_reply s = Quiet" using assms(2) [rule_format, of 0] by (simp add: next_reply_def)
  have r1: "next_reply (step s) = Quiet"
    using assms(2) [rule_format, of 1] by (simp add: next_reply_def step_def)
  let ?s2 = "(step (step s))\<lparr>io_log := io_log s @ [Wrote command]\<rparr>"
  have "\<forall>k < 100 - 0. script ?s2 (tick ?s2 + k) = Quiet"
  proof (intro allI impI)
    fix k :: nat assume "k < 100 - 0"
    then show "script ?s2 (tick ?s2 + k) = Quiet"
      using assms(2) [rule_format, of "k + 2"] by (simp add: step_def)
  qed
  from wait_quiet [OF _ this, of "[]"]
  have "wait_for_response ?s2 0 [] = Some (Inr [], ?s2\<lparr>tick := tick ?s2 + 100, slept_ms := slept_ms ?s2 + 1000\<rparr>)"
    by simp
  then show ?thesis
    using p r0 r1 by (simp add: try_send_def step_def)
qed

lemma send_retries_quiet:
  assumes "is_connected s" "0 < n" "\<forall>k < 102 * n. script s (tick s + k) = Quiet"
  shows "send_retries n s command
     = Some (Inl (RFIDDeviceError (SendFailed (RFIDDeviceError NoResponse))),
         s\<lparr>tick := tick s + 102 * n, io_log := io_log s @ replicate n (Wrote command),
           slept_ms := slept_ms s + 1000 * n + 100 * (n - 1)\<rparr>)"
  using assms
proof (induction n arbitrary: s)
  case 0
  then show ?case by simp
next
  case (Suc n)
  have q: "\<forall>k < 102. script s (tick s + k) = Quiet" using Suc.prems(3) by simp
  note ts = try_send_quiet [OF Suc.prems(1) q, of command]
  show ?case
  proof (cases "n = 0")
    case True
    then show ?thesis using ts by simp
  next
    case False
    let ?s1 = "sleep_ms 100 (s\<lparr>tick := tick s + 102, io_log := io_log s @ [Wrote command],
          slept_ms := slept_ms s + 1000\<rparr>)"
    have c: "is_connected ?s1" using Suc.prems(1) by (simp add: is_connected_def sleep_ms_def)
    have "\<forall>k < 102 * n. script ?s1 (tick ?s1 + k) = Quiet"
    proof (intro allI impI)
      fix k assume "k < 102 * n"
      then show "script ?s1 (tick ?s1 + k) = Quiet"
        using Suc.prems(3) [rule_format, of "102 + k"] by (simp add: sleep_ms_def add.assoc)
    qed
    from Suc.IH [OF c _ this] False
    have "send_retries n ?s1 command
       = Some (Inl (RFIDDeviceError (SendFailed (RFIDDeviceError NoResponse))),
         ?s1\<lparr>tick := tick ?s1 + 102 * n, io_log := io_log ?s1 @ replicate n (Wrote command),
           slept_ms := slept_ms ?s1 + 1000 * n + 100 * (n - 1)\<rparr>)" by simp
    moreover from False obtain m where "n = Suc m" by (cases n) auto
    ultimately show ?thesis
      using ts by (simp add: sleep_ms_def)
  qed
qed

text \<open>
  A silent device. On a connected session, if the port accepts every operation and no
  byte ever becomes available, \<open>send_command\<close> does return, by raising
  \<open>RFIDDeviceError\<close> for a missing response: it has made exactly three attempts
  (three writes, each followed by 100 polls of 10 ms) with a 100 ms pause after the
  first two, 3200 ms of sleep in all, within the bound of 3 times (1000 + 100) ms.
\<close>

theorem send_times_out:
  assumes "is_connected s" "\<forall>k < 306. script s (tick s + k) = Quiet"
  shows "send_command s command
     = Some (Inl (RFIDDeviceError (SendFailed (RFIDDeviceError NoResponse))),
         s\<lparr>tick := tick s + 306, io_log := io_log s @ [Wrote command, Wrote command, Wrote command],
           slept_ms := slept_ms s + 3200\<rparr>)
     \<and> 3200 \<le> 3 * (1000 + 100 :: nat)"
  using send_retries_quiet [OF assms(1), of 3 command] assms
  by (simp add: send_command_def max_retries_def numeral_3_eq_3)

theorem send_times_out_witness:
  "is_connected quiet_session
   \<and> send_command quiet_session stop_command
       = Some (Inl (RFIDDeviceError (SendFailed (RFIDDeviceError NoResponse))),
           quiet_session\<lparr>tick := 306,
             io_log := [Wrote stop_command, Wrote stop_command, Wrote stop_command],
             slept_ms := 3200\<rparr>)"
proof -
  have c: "is_connected quiet_session" by (simp add: quiet_session_def is_connected_def)
  have q: "\<forall>k < 306. script quiet_session (tick quiet_session + k) = Quiet"
    by (simp add: quiet_session_def)
  show ?thesis
    using send_times_out [OF c q, of stop_command] c by (simp add: quiet_session_def)
qed

subsection \<open>A device that keeps sending\<close>

text \<open>
  While a byte other than \<open>7E\<close> is waiting at every poll, the polling loop reads it
  and goes round again without advancing \<open>wait_time\<close>: it has no result.
\<close>

lemma wait_chatter_no_result:
  assumes "wait_for_response s w r = Some y"
  shows "\<not> (w < 100 \<and> (\<forall>t. script s t = Avail 0x00))"
  using assms
proof (rule wait_for_response.raw_induct
    [where P = "\<lambda>s w r y. \<not> (w < 100 \<and> (\<forall>t. script s t = Avail 0x00))", rotated -1])
  fix loop s wait_time response sa
  assume IH: "\<And>s w r y. loop s w r = Some y \<Longrightarrow> \<not> (w < 100 \<and> (\<forall>t. script s t = Avail 0x00))"
    and eq: "(if wait_time < 100
      then case next_reply s of
           Quiet \<Rightarrow> loop (sleep_ms 10 (step s)) (wait_time + 1) response
           | Avail b \<Rightarrow>
               if b = 126 then Some (Inr (response @ [b]), step s)
               else loop (step s) wait_time (response @ [b])
           | SerialError \<Rightarrow> Some (Inl SerialException, step s)
           | OtherError \<Rightarrow> Some (Inl OtherException, step s)
      else Some (Inr response, s)) = Some sa"
  show "\<not> (wait_time < 100 \<and> (\<forall>t. script s t = Avail 0x00))"
  proof
    assume "wait_time < 100 \<and> (\<forall>t. script s t = Avail 0x00)"
    then have w: "wait_time < 100" and a: "\<forall>t. script s t = Avail 0x00" by simp_all
    from a have n: "next_reply s = Avail 0x00" by (simp add: next_reply_def)
    from eq w n have "loop (step s) wait_time (response @ [0x00]) = Some sa" by simp
    from IH [OF this] w a show False by (simp add: step_def)
  qed
qed

lemma wait_chatter:
  "w < 100 \<Longrightarrow> \<forall>t. script s t = Avail 0x00 \<Longrightarrow> wait_for_response s w r = None"
  using wait_chatter_no_result [of s w r] by (cases "wait_for_response s w r") auto

text \<open>
  C5. \<open>send_command\<close> can block its caller for ever: on a connected port where a
  byte \<open>00\<close> is waiting at every poll, the first attempt never leaves its polling
  loop, so the call does not return (neither a response nor an error). The bound of
  1 s per attempt only counts the polls that found nothing waiting.
\<close>

theorem send_blocks_on_chatter:
  "is_connected chatty_session \<and> send_command chatty_session stop_command = None"
proof -
  have c: "is_connected chatty_session"
    by (simp add: chatty_session_def quiet_session_def is_connected_def)
  let ?s2 = "(step (step chatty_session))\<lparr>io_log := io_log chatty_session @ [Wrote stop_command]\<rparr>"
  have "wait_for_response ?s2 0 [] = None"
    by (rule wait_chatter) (simp_all add: chatty_session_def quiet_session_def step_def)
  then have "try_send chatty_session stop_command = None"
    by (simp add: try_send_def chatty_session_def quiet_session_def next_reply_def step_def)
  then show ?thesis
    using c by (simp add: send_command_def max_retries_def numeral_3_eq_3)
qed

subsection \<open>What send_command may change\<close>

lemma wait_post_step: "wait_post (step s) y \<Longrightarrow> wait_post s y"
  and wait_post_sleep: "wait_post (sleep_ms n s) y \<Longrightarrow> wait_post s y"
  by (simp_all add: wait_post_def only_clock_def step_def sleep_ms_def)

lemma wait_frame:
  assumes "wait_for_response s w r = Some y"
  shows "wait_post s y"
  using assms
proof (rule wait_for_response.raw_induct [where P = "\<lambda>s w r y. wait_post s y", rotated -1])
  fix loop s wait_time response sa
  assume IH: "\<And>s w r y. loop s w r = Some y \<Longrightarrow> wait_post s y"
    and eq: "(if wait_time < 100
      then case next_reply s of
           Quiet \<Rightarrow> loop (sleep_ms 10 (step s)) (wait_time + 1) response
           | Avail b \<Rightarrow>
               if b = 126 then Some (Inr (response @ [b]), step s)
               else loop (step s) wait_time (response @ [b])
           | SerialError \<Rightarrow> Some (Inl SerialException, step s)
           | OtherError \<Rightarrow> Some (Inl OtherException, step s)
      else Some (Inr response, s)) = Some sa"
  show "wait_post s sa"
  proof (cases "wait_time < 100")
    case False
    with eq have "sa = (Inr response, s)" by simp
    then show ?thesis by (simp add: wait_post_def only_clock_def)
  next
    case True
    show ?thesis
    proof (cases "next_reply s")
      case Quiet
      with True eq have "loop (sleep_ms 10 (step s)) (wait_time + 1) response = Some sa"
        by simp
      from IH [OF this] have "wait_post (step s) sa" by (rule wait_post_sleep)
      then show ?thesis by (rule wait_post_step)
    next
      case (Avail b)
      show ?thesis
      proof (cases "b = 0x7E")
        case True
        with Avail \<open>wait_time < 100\<close> eq have "sa = (Inr (response @ [b]), step s)" by simp
        then show ?thesis by (simp add: wait_post_def only_clock_def step_def)
      next
        case False
        with Avail True eq have "loop (step s) wait_time (response @ [b]) = Some sa"
          by simp
        from IH [OF this] show ?thesis by (rule wait_post_step)
      qed
    next
      case SerialError
      with True eq have "sa = (Inl SerialException, step s)" by simp
      then show ?thesis by (simp add: wait_post_def only_clock_def step_def)
    next
      case OtherError
      with True eq have "sa = (Inl OtherException, step s)" by simp
      then show ?thesis by (simp add: wait_post_def only_clock_def step_def)
    qed
  qed
qed

lemma sent_only_refl: "sent_only s s"
  by (auto simp: sent_only_def)

lemma sent_only_trans: "sent_only s s1 \<Longrightarrow> sent_only s1 s2 \<Longrightarrow> sent_only s s2"
proof -
  assume a: "sent_only s s1" and b: "sent_only s1 s2"
  from a obtain f1 where f1: "io_log s1 = io_log s @ map Wrote f1" by (auto simp: sent_only_def)
  from b obtain f2 where f2: "io_log s2 = io_log s1 @ map Wrote f2" by (auto simp: sent_only_def)
  have "io_log s2 = io_log s @ map Wrote (f1 @ f2)" using f1 f2 by simp
  then have "\<exists>frames. io_log s2 = io_log s @ map Wrote frames" by blast
  moreover have "ser s2 = ser s \<or> ser s2 = None" using a b by (auto simp: sent_only_def)
  ultimately show ?thesis using a b by (simp add: sent_only_def)
qed

lemma sent_only_sleep: "sent_only s s1 \<Longrightarrow> sent_only s (sleep_ms n s1)"
  by (simp add: sent_only_def sleep_ms_def)

lemma sent_only_drop: "sent_only s s1 \<Longrightarrow> sent_only s (s1\<lparr>ser := None\<rparr>)"
  by (simp add: sent_only_def)

text \<open>One attempt.\<close>

lemma try_send_cases:
  assumes "try_send s command = Some (res, s')"
  shows "sent_only s s' \<and>
     ((\<exists>response. res = Inr response) \<and> ser s' = ser s \<and> ser s \<noteq> None
      \<or> (res = Inl SerialException \<or> res = Inl OtherException) \<and> ser s' = ser s
      \<or> (res = Inl (RFIDDeviceError ConnectionLost) \<or> res = Inl (RFIDDeviceError ConnectionClosed))
          \<and> ser s' = None)"
proof (cases "ser s")
  case None
  with assms have "res = Inl (RFIDDeviceError ConnectionLost)" "s' = s" by (simp_all add: try_send_def)
  with None show ?thesis by (simp add: sent_only_refl)
next
  case (Some p)
  show ?thesis
  proof (cases "next_reply s = SerialError \<or> next_reply s = OtherError")
    case True
    with assms Some have "res = Inl (RFIDDeviceError ConnectionLost)" "s' = (step s)\<lparr>ser := None\<rparr>"
      by (auto simp: try_send_def)
    then show ?thesis by (auto simp: sent_only_def step_def)
  next
    case r0: False
    show ?thesis
    proof (cases "is_open p")
      case False
      with assms Some r0 have "res = Inl (RFIDDeviceError ConnectionClosed)" "s' = (step s)\<lparr>ser := None\<rparr>"
        by (auto simp: try_send_def)
      then show ?thesis by (auto simp: sent_only_def step_def)
    next
      case op: True
      show ?thesis
      proof (cases "next_reply (step s) = SerialError \<or> next_reply (step s) = OtherError")
        case True
        with assms Some r0 op have "res = Inl SerialException \<or> res = Inl OtherException"
          "s' = step (step s)"
          by (auto simp: try_send_def split: if_splits)
        then show ?thesis by (auto simp: sent_only_def step_def)
      next
        case False
        with assms Some r0 op have w: "wait_for_response
            ((step (step s))\<lparr>io_log := io_log s @ [Wrote command]\<rparr>) 0 [] = Some (res, s')"
          by (simp add: try_send_def)
        from wait_frame [OF w]
        have oc: "only_clock ((step (step s))\<lparr>io_log := io_log s @ [Wrote command]\<rparr>) s'"
          and nd: "(\<exists>response. res = Inr response) \<or> res = Inl SerialException \<or> res = Inl OtherException"
          by (simp_all add: wait_post_def)
        have "io_log s' = io_log s @ map Wrote [command]" using oc by (simp add: only_clock_def)
        then have ex: "\<exists>frames. io_log s' = io_log s @ map Wrote frames" by blast
        have so: "sent_only s s'" using oc ex by (simp add: only_clock_def sent_only_def step_def)
        have sr: "ser s' = ser s" using oc by (simp add: only_clock_def step_def)
        from nd so sr Some show ?thesis by auto
      qed
    qed
  qed
qed

text \<open>All attempts.\<close>

lemma send_post_later:
  assumes "sent_only s s1" "ser s1 = ser s \<or> ser s1 = None" "send_post (sleep_ms n s1) y"
  shows "send_post s y"
proof -
  have a: "sent_only s (sleep_ms n s1)" using assms(1) by (rule sent_only_sleep)
  have b: "sent_only (sleep_ms n s1) (snd y)" using assms(3) by (simp add: send_post_def)
  have "sent_only s (snd y)" using a b by (rule sent_only_trans)
  then show ?thesis
    using assms(2,3) by (auto simp: send_post_def sleep_ms_def split: sum.splits)
qed

lemma send_retries_post:
  "send_retries n s command = Some y \<Longrightarrow> send_post s y"
proof (induction n arbitrary: s)
  case 0
  then show ?case by (auto simp: send_post_def sent_only_refl transport_error_def)
next
  case (Suc n)
  from Suc.prems obtain r1 s1 where t: "try_send s command = Some (r1, s1)"
    by (cases "try_send s command") auto
  note c = try_send_cases [OF t]
  then have so: "sent_only s s1" and sr: "ser s1 = ser s \<or> ser s1 = None"
    by (auto simp: sent_only_def)
  show ?case
  proof (cases "0 < n \<and> (r1 = Inr [] \<or> (\<exists>e. r1 = Inl e \<and> e \<noteq> SerialException))")
    case True
    with Suc.prems t have "send_retries n (sleep_ms 100 s1) command = Some y"
      by (auto split: if_splits)
    from Suc.IH [OF this] show ?thesis using so sr by (rule send_post_later [rotated 2])
  next
    case False
    from c consider
        (resp) response where "r1 = Inr response" "ser s1 = ser s" "ser s \<noteq> None"
      | (serial) "r1 = Inl SerialException"
      | (other) "r1 = Inl OtherException" "ser s1 = ser s"
      | (lost) "r1 = Inl (RFIDDeviceError ConnectionLost) \<or> r1 = Inl (RFIDDeviceError ConnectionClosed)"
          "ser s1 = None"
      by auto
    then show ?thesis
    proof cases
      case resp
      with False Suc.prems t so show ?thesis
        by (auto simp: send_post_def transport_error_def split: if_splits)
    next
      case serial
      with Suc.prems t have "y = (Inl (RFIDDeviceError CommFailed), s1\<lparr>ser := None\<rparr>)" by simp
      with so show ?thesis by (simp add: send_post_def sent_only_drop)
    next
      case other
      with False Suc.prems t so show ?thesis
        by (auto simp: send_post_def transport_error_def split: if_splits)
    next
      case lost
      with False Suc.prems t so show ?thesis
        by (auto simp: send_post_def transport_error_def split: if_splits)
    qed
  qed
qed

lemma send_command_post:
  "send_command s command = Some y \<Longrightarrow> send_post s y"
  by (auto simp: send_command_def send_post_def sent_only_refl transport_error_def
      dest: send_retries_post split: if_splits)

subsection \<open>An answering device, an unplugged device\<close>

lemma wait_answer:
  assumes "w < 100" "0x7E \<notin> set bs"
    "\<forall>i < length bs. script s (tick s + i) = Avail (bs ! i)"
    "script s (tick s + length bs) = Avail 0x7E"
  shows "wait_for_response s w r
     = Some (Inr (r @ bs @ [0x7E]), s\<lparr>tick := tick s + length bs + 1\<rparr>)"
  using assms
proof (induction bs arbitrary: s r)
  case Nil
  then have "next_reply s = Avail 0x7E" by (simp add: next_reply_def)
  with Nil(1) show ?case by (subst wait_for_response.simps) (simp add: step_def)
next
  case (Cons b bs)
  have r: "next_reply s = Avail b" using Cons.prems(3) [rule_format, of 0] by (simp add: next_reply_def)
  have b: "b \<noteq> 0x7E" using Cons.prems(2) by auto
  have "\<forall>i < length bs. script (step s) (tick (step s) + i) = Avail (bs ! i)"
  proof (intro allI impI)
    fix i assume "i < length bs"
    then show "script (step s) (tick (step s) + i) = Avail (bs ! i)"
      using Cons.prems(3) [rule_format, of "Suc i"] by (simp add: step_def)
  qed
  moreover have "script (step s) (tick (step s) + length bs) = Avail 0x7E"
    using Cons.prems(4) by (simp add: step_def)
  moreover have "0x7E \<notin> set bs" using Cons.prems(2) by simp
  ultimately have "wait_for_response (step s) w (r @ [b])
     = Some (Inr ((r @ [b]) @ bs @ [0x7E]), (step s)\<lparr>tick := tick (step s) + length bs + 1\<rparr>)"
    using Cons.IH [of "step s" "r @ [b]"] Cons.prems(1) by blast
  then show ?case
    using r b Cons.prems(1) by (subst wait_for_response.simps) (simp add: step_def)
qed

lemma send_answer:
  assumes "is_connected s" "0x7E \<notin> set bs"
    "\<forall>i < length bs + 3. script s (tick s + i) = answer (bs @ [0x7E]) ! i"
  shows "send_command s command
     = Some (Inr (bs @ [0x7E]),
         s\<lparr>tick := tick s + length bs + 3, io_log := io_log s @ [Wrote command]\<rparr>)"
proof -
  from assms(1) obtain p where p: "ser s = Some p" "is_open p"
    by (auto simp: is_connected_def split: option.splits)
  have r0: "next_reply s = Quiet"
    using assms(3) [rule_format, of 0] by (simp add: next_reply_def answer_def)
  have r1: "next_reply (step s) = Quiet"
    using assms(3) [rule_format, of 1] by (simp add: next_reply_def step_def answer_def)
  let ?s2 = "(step (step s))\<lparr>io_log := io_log s @ [Wrote command]\<rparr>"
  have a: "\<forall>i < length bs. script ?s2 (tick ?s2 + i) = Avail (bs ! i)"
  proof (intro allI impI)
    fix i assume "i < length bs"
    then show "script ?s2 (tick ?s2 + i) = Avail (bs ! i)"
      using assms(3) [rule_format, of "i + 2"] by (simp add: step_def answer_def nth_append)
  qed
  have b: "script ?s2 (tick ?s2 + length bs) = Avail 0x7E"
    using assms(3) [rule_format, of "length bs + 2"] by (simp add: step_def answer_def nth_append)
  have "wait_for_response ?s2 0 [] = Some (Inr ([] @ bs @ [0x7E]), ?s2\<lparr>tick := tick ?s2 + length bs + 1\<rparr>)"
    by (rule wait_answer [OF _ assms(2) a b]) simp
  then have "try_send s command
     = Some (Inr (bs @ [0x7E]), s\<lparr>tick := tick s + length bs + 3, io_log := io_log s @ [Wrote command]\<rparr>)"
    using p r0 r1 by (simp add: try_send_def step_def)
  then show ?thesis
    using assms(1) by (simp add: send_command_def max_retries_def numeral_3_eq_3)
qed

lemma send_serial_error:
  assumes "is_connected s" "next_reply s = Quiet" "next_reply (step s) = SerialError"
  shows "send_command s command
     = Some (Inl (RFIDDeviceError CommFailed), s\<lparr>tick := tick s + 2, ser := None\<rparr>)"
proof -
  from assms(1) obtain p where p: "ser s = Some p" "is_open p"
    by (auto simp: is_connected_def split: option.splits)
  have "try_send s command = Some (Inl SerialException, step (step s))"
    using p assms(2,3) by (simp add: try_send_def)
  then show ?thesis
    using assms(1) by (simp add: send_command_def max_retries_def numeral_3_eq_3 step_def)
qed

subsection \<open>Stopping the inventory\<close>

lemma stop_reading_idle:
  "is_connected s \<Longrightarrow> \<not> group_read_active s \<Longrightarrow> stop_reading s = Some (True, s)"
  by (simp add: stop_reading_def)

lemma stop_reading_twice:
  assumes "stop_reading s0 = Some (True, s)"
  shows "stop_reading s = Some (True, s)"
proof (cases "is_connected s0 \<and> group_read_active s0")
  case False
  with assms have "s = s0" "is_connected s0" "\<not> group_read_active s0"
    by (auto simp: stop_reading_def split: if_splits)
  then show ?thesis by (simp add: stop_reading_idle)
next
  case True
  with assms obtain response s1 where
    sc: "send_command s0 stop_command = Some (Inr response, s1)"
    and s: "s = s1\<lparr>group_read_active := False, read_thread := False\<rparr>"
    by (auto simp: stop_reading_def split: option.splits sum.splits)
  from send_command_post [OF sc] have "ser s1 = ser s0" by (simp add: send_post_def)
  with True s have "is_connected s" "\<not> group_read_active s" by (simp_all add: is_connected_def)
  then show ?thesis by (rule stop_reading_idle)
qed

text \<open>
  C9. On a connected session that is not reading, \<open>stop_reading\<close> returns \<open>True\<close>
  and changes nothing: no field of the session, nothing written, no port operation.
  Hence whenever a first call has returned \<open>True\<close>, from whatever state, a second
  call right after it returns \<open>True\<close> as well and leaves the state as it found it.
\<close>

theorem stop_reading_idempotent:
  "(is_connected s \<and> \<not> group_read_active s \<longrightarrow> stop_reading s = Some (True, s))
   \<and> (stop_reading s0 = Some (True, s) \<longrightarrow> stop_reading s = Some (True, s))"
  using stop_reading_idle [of s] stop_reading_twice [of s0 s] by blast

lemma reading_session_connected: "is_connected reading_session"
  by (simp add: reading_session_def quiet_session_def is_connected_def)

lemma send_stop_reading_session:
  "send_command reading_session stop_command
     = Some (Inr stop_response,
         reading_session\<lparr>tick := 10, io_log := [Wrote stop_command]\<rparr>)"
proof -
  have "\<forall>i < length [0xBB, 0x01, 0x28, 0x00, 0x01, 0x00, 0x2A :: byte] + 3.
      script reading_session (tick reading_session + i)
        = answer ([0xBB, 0x01, 0x28, 0x00, 0x01, 0x00, 0x2A] @ [0x7E]) ! i"
    by (simp add: reading_session_def quiet_session_def script_of_def stop_response_def answer_def)
  from send_answer [OF reading_session_connected _ this, of stop_command]
  show ?thesis by (simp add: stop_response_def reading_session_def quiet_session_def)
qed

theorem stop_reading_idempotent_witness:
  "is_connected quiet_session \<and> \<not> group_read_active quiet_session
   \<and> stop_reading quiet_session = Some (True, quiet_session)
   \<and> stop_reading reading_session
       = Some (True, reading_session\<lparr>tick := 10, io_log := [Wrote stop_command],
            group_read_active := False, read_thread := False\<rparr>)
   \<and> stop_reading (reading_session\<lparr>tick := 10, io_log := [Wrote stop_command],
            group_read_active := False, read_thread := False\<rparr>)
       = Some (True, reading_session\<lparr>tick := 10, io_log := [Wrote stop_command],
            group_read_active := False, read_thread := False\<rparr>)"
proof -
  have q: "is_connected quiet_session" "\<not> group_read_active quiet_session"
    by (simp_all add: quiet_session_def is_connected_def)
  have r: "stop_reading reading_session
       = Some (True, reading_session\<lparr>tick := 10, io_log := [Wrote stop_command],
            group_read_active := False, read_thread := False\<rparr>)"
    using reading_session_connected
    by (simp add: stop_reading_def send_stop_reading_session)
       (simp add: reading_session_def)
  show ?thesis
    using q r stop_reading_idempotent [of quiet_session reading_session]
      stop_reading_idempotent [of "reading_session\<lparr>tick := 10, io_log := [Wrote stop_command],
            group_read_active := False, read_thread := False\<rparr>" reading_session]
    by simp
qed

text \<open>
  C10. On a session that is not connected (no port handle, or a closed one),
  \<open>stop_reading\<close> returns \<open>False\<close> and changes nothing; in particular
  \<open>group_read_active\<close> stays set if it was, however often the call is repeated.
\<close>

theorem stop_reading_disconnected:
  assumes "\<not> is_connected s"
  shows "stop_reading s = Some (False, s)"
  using assms by (simp add: stop_reading_def)

theorem stop_reading_disconnected_witness:
  "stop_reading unplugged_session = Some (False, unplugged_session\<lparr>tick := 2, ser := None\<rparr>)
   \<and> \<not> is_connected (unplugged_session\<lparr>tick := 2, ser := None\<rparr>)
   \<and> group_read_active (unplugged_session\<lparr>tick := 2, ser := None\<rparr>)
   \<and> stop_reading (unplugged_session\<lparr>tick := 2, ser := None\<rparr>)
       = Some (False, unplugged_session\<lparr>tick := 2, ser := None\<rparr>)"
proof -
  have c: "is_connected unplugged_session" "group_read_active unplugged_session"
    by (simp_all add: unplugged_session_def quiet_session_def is_connected_def)
  have "next_reply unplugged_session = Quiet" "next_reply (step unplugged_session) = SerialError"
    by (simp_all add: unplugged_session_def quiet_session_def next_reply_def step_def script_of_def)
  from send_serial_error [OF c(1) this, of stop_command]
  have "send_command unplugged_session stop_command
     = Some (Inl (RFIDDeviceError CommFailed), unplugged_session\<lparr>tick := 2, ser := None\<rparr>)"
    by (simp add: unplugged_session_def quiet_session_def)
  then have s: "stop_reading unplugged_session
      = Some (False, unplugged_session\<lparr>tick := 2, ser := None\<rparr>)"
    using c by (simp add: stop_reading_def)
  have n: "\<not> is_connected (unplugged_session\<lparr>tick := 2, ser := None\<rparr>)"
    by (simp add: is_connected_def)
  show ?thesis
    using s n c(2) stop_reading_disconnected [OF n] by simp
qed


subsection \<open>Rejected Select masks\<close>

text \<open>
  C6. For every non-empty EPC string that is not valid hexadecimal, or that decodes to
  fewer than 12 bytes, \<open>set_select_params\<close> returns \<open>False\<close> and leaves the
  session as it found it: nothing is written, no port operation is made.
\<close>

theorem set_select_params_rejects:
  assumes "target_epc \<noteq> []"
    "fromhex (remove_spaces target_epc) = None
     \<or> (\<exists>epc_bytes. fromhex (remove_spaces target_epc) = Some epc_bytes \<and> length epc_bytes < 12)"
  shows "set_select_params (Some target_epc) s = Some (Inr False, s)"
  using assms by (auto simp: set_select_params_def truthy_def)

lemma fromhex_short: "fromhex (remove_spaces ''AA BB CC'') = Some [0xAA, 0xBB, 0xCC]"
  by (simp add: remove_spaces_def isspace_def hexval_def)

lemma fromhex_bad: "fromhex (remove_spaces ''not hex'') = None"
  by (simp add: remove_spaces_def isspace_def hexval_def)

theorem set_select_params_rejects_witness:
  "fromhex (remove_spaces ''AA BB CC'') = Some [0xAA, 0xBB, 0xCC]
   \<and> set_select_params (Some ''AA BB CC'') quiet_session = Some (Inr False, quiet_session)
   \<and> fromhex (remove_spaces ''not hex'') = None
   \<and> set_select_params (Some ''not hex'') quiet_session = Some (Inr False, quiet_session)"
  using set_select_params_rejects [of "''AA BB CC''" quiet_session]
    set_select_params_rejects [of "''not hex''" quiet_session]
  by (simp add: fromhex_short fromhex_bad)

lemma select_session_connected: "is_connected select_session"
  by (simp add: select_session_def quiet_session_def is_connected_def)

lemma send_select_session:
  "send_command select_session command
     = Some (Inr select_mode_response, select_session\<lparr>tick := 10, io_log := [Wrote command]\<rparr>)"
proof -
  have "\<forall>i < length [0xBB, 0x01, 0x12, 0x00, 0x01, 0x00, 0x14 :: byte] + 3.
      script select_session (tick select_session + i)
        = answer ([0xBB, 0x01, 0x12, 0x00, 0x01, 0x00, 0x14] @ [0x7E]) ! i"
    by (simp add: select_session_def quiet_session_def script_of_def select_mode_response_def
        answer_def)
  from send_answer [OF select_session_connected _ this, of command]
  show ?thesis by (simp add: select_mode_response_def select_session_def quiet_session_def)
qed

text \<open>
  The empty string decodes to zero bytes, but \<open>if target_epc:\<close> takes it for no
  EPC at all: the Select is cleared, with a Select mode command written to the port,
  and the result is \<open>True\<close>.
\<close>

theorem set_select_params_empty_string:
  "fromhex (remove_spaces '''') = Some []
   \<and> set_select_params (Some '''') select_session
       = Some (Inr True,
           select_session\<lparr>tick := 10,
             io_log := [Wrote [0xBB, 0x00, 0x12, 0x00, 0x01, 0x01, 0x14, 0x7E]],
             select_mode := 0x01, select_param := None\<rparr>)"
proof -
  have c: "set_select_mode_command 1 = Inr [0xBB, 0x00, 0x12, 0x00, 0x01, 0x01, 0x14, 0x7E]"
    by (simp add: set_select_mode_command_def py_slice_def sum_bytes_def)
  have ok: "select_mode_response_ok select_mode_response"
    by (simp add: select_mode_response_ok_def select_mode_response_def)
  have "set_select_mode 1 select_session
      = Some (Inr True, select_session\<lparr>tick := 10,
             io_log := [Wrote [0xBB, 0x00, 0x12, 0x00, 0x01, 0x01, 0x14, 0x7E]],
             select_mode := 0x01\<rparr>)"
    using select_session_connected by (simp add: set_select_mode_def c send_select_session ok)
  then show ?thesis
    using select_session_connected
    by (simp add: set_select_params_def truthy_def remove_spaces_def)
qed

subsection \<open>Disconnecting\<close>

lemma stop_reading_kept:
  assumes "stop_reading s = Some (b, s1)"
  shows "gain s1 = gain s \<and> select_mode s1 = select_mode s \<and> select_param s1 = select_param s
       \<and> current_power s1 = current_power s \<and> last_port s1 = last_port s"
proof (cases "is_connected s \<and> group_read_active s")
  case False
  with assms show ?thesis by (auto simp: stop_reading_def split: if_splits)
next
  case True
  with assms obtain r s2 where sc: "send_command s stop_command = Some (r, s2)"
    and s1: "s1 = s2 \<or> s1 = s2\<lparr>group_read_active := False, read_thread := False\<rparr>"
    by (auto simp: stop_reading_def split: option.splits sum.splits)
  from send_command_post [OF sc] have "sent_only s s2" by (simp add: send_post_def)
  with s1 show ?thesis by (auto simp: sent_only_def)
qed

text \<open>
  C8. Whenever \<open>disconnect\<close> returns, the port handle is released
  (\<open>self.ser\<close> is \<open>None\<close>; when the result is \<open>True\<close> and there was a handle,
  closing the port was the last effect on it), and the cached gain, the Select mode and
  mask and the recorded power level are what they were before the call.
\<close>

theorem disconnect_keeps_cache:
  assumes "disconnect s = Some (Inr ok, s')"
  shows "ser s' = None \<and> gain s' = gain s \<and> select_mode s' = select_mode s
       \<and> select_param s' = select_param s \<and> current_power s' = current_power s
       \<and> (ok \<and> ser s \<noteq> None \<longrightarrow> (\<exists>log p. io_log s' = log @ [Closed p]))"
proof (cases "ser s")
  case None
  with assms show ?thesis by (auto simp: disconnect_def)
next
  case (Some p)
  with assms obtain b s1 where
    st: "(if group_read_active s then stop_reading s else Some (True, s)) = Some (b, s1)"
    by (auto simp: disconnect_def split: option.splits)
  have k: "gain s1 = gain s \<and> select_mode s1 = select_mode s \<and> select_param s1 = select_param s
       \<and> current_power s1 = current_power s"
  proof (cases "group_read_active s")
    case True
    with st have "stop_reading s = Some (b, s1)" by simp
    from stop_reading_kept [OF this] show ?thesis by simp
  next
    case False
    with st show ?thesis by simp
  qed
  from assms Some st have "ser s' = None \<and> gain s' = gain s1 \<and> select_mode s' = select_mode s1
      \<and> select_param s' = select_param s1 \<and> current_power s' = current_power s1"
    by (auto simp: disconnect_def step_def split: option.splits if_splits)
  moreover from assms Some st have "ok \<longrightarrow> (\<exists>p. io_log s' = io_log s1 @ [Closed p])"
    by (auto simp: disconnect_def step_def split: option.splits if_splits)
  ultimately show ?thesis using k by auto
qed

text \<open>
  The example session disconnected: the gain of 20 dBm and the Select mask are still
  cached.
\<close>

theorem disconnect_keeps_cache_example:
  "disconnect quiet_session
     = Some (Inr True, quiet_session\<lparr>tick := 1, ser := None, io_log := [Closed ''COM3'']\<rparr>)
   \<and> gain (quiet_session\<lparr>tick := 1, ser := None, io_log := [Closed ''COM3'']\<rparr>) = Some 2000
   \<and> select_param (quiet_session\<lparr>tick := 1, ser := None, io_log := [Closed ''COM3'']\<rparr>)
       = Some ''AA BB CC DD EE FF 11 22 33 44 55 66''"
  by (simp add: disconnect_def quiet_session_def next_reply_def step_def)

theorem disconnect_keeps_cache_witness:
  "disconnect quiet_session
     = Some (Inr True, quiet_session\<lparr>tick := 1, ser := None, io_log := [Closed ''COM3'']\<rparr>)
   \<and> ser (quiet_session\<lparr>tick := 1, ser := None, io_log := [Closed ''COM3'']\<rparr>) = None
   \<and> gain (quiet_session\<lparr>tick := 1, ser := None, io_log := [Closed ''COM3'']\<rparr>)
       = gain quiet_session"
proof -
  have d: "disconnect quiet_session
     = Some (Inr True, quiet_session\<lparr>tick := 1, ser := None, io_log := [Closed ''COM3'']\<rparr>)"
    by (simp add: disconnect_def quiet_session_def next_reply_def step_def)
  from disconnect_keeps_cache [OF d] d show ?thesis by simp
qed


subsection \<open>After a transport error\<close>

lemma transport_error_sent:
  assumes "send_command s command = Some (Inl e, s1)" "transport_error e"
  shows "ser s1 = None" "\<not> is_connected s1" "last_port s1 = last_port s"
    "\<exists>frames. io_log s1 = io_log s @ map Wrote frames"
proof -
  from send_command_post [OF assms(1)] assms(2)
  have p: "sent_only s s1" "ser s1 = None" by (simp_all add: send_post_def)
  then show "ser s1 = None" "\<not> is_connected s1" "last_port s1 = last_port s"
    "\<exists>frames. io_log s1 = io_log s @ map Wrote frames"
    by (simp_all add: is_connected_def sent_only_def)
qed

lemma read_card_once_reconnects:
  assumes "is_connected s" "send_command s read_once_command = Some (Inl e, s1)"
    "transport_error e"
  shows "read_card_once d s =
     (case last_port s of
        None \<Rightarrow> Some (None, s1)
      | Some port \<Rightarrow>
          (case connect d port s1 of None \<Rightarrow> None | Some (r, s2) \<Rightarrow> Some (None, s2)))"
  using assms(1,2) transport_error_sent(2,3) [OF assms(2,3)]
  by (simp add: read_card_once_def)

lemma get_current_gain_reconnects:
  assumes "is_connected s" "send_command s gain_command = Some (Inl e, s1)"
    "transport_error e"
  shows "get_current_gain (Suc d) s =
     (case last_port s of
        None \<Rightarrow> gain_second_attempt s1
      | Some port \<Rightarrow>
          (case connect d port s1 of None \<Rightarrow> None | Some (r, s2) \<Rightarrow> gain_second_attempt s2))"
  using assms(1,2) transport_error_sent(1,3) [OF assms(2,3)]
  by (simp del: connect.simps split: option.splits)

lemma stop_reading_stays_down:
  assumes "is_connected s" "group_read_active s"
    "send_command s stop_command = Some (Inl e, s1)"
  shows "stop_reading s = Some (False, s1)"
  using assms by (simp add: stop_reading_def)

lemma start_reading_stays_down:
  assumes "is_connected s" "\<not> group_read_active s"
    "send_command s start_command = Some (Inl e, s1)"
  shows "start_reading s = Some (False, s1)"
  using assms by (simp add: start_reading_def)

lemma set_select_mode_stays_down:
  assumes "is_connected s" "set_select_mode_command mode = Inr command"
    "send_command s command = Some (Inl e, s1)"
  shows "set_select_mode mode s = Some (Inr False, s1)"
  using assms by (simp add: set_select_mode_def)

lemma glitch_session_connected: "is_connected glitch_session"
  by (simp add: glitch_session_def quiet_session_def is_connected_def)

lemma send_glitch_session:
  "send_command glitch_session command
     = Some (Inl (RFIDDeviceError CommFailed), glitch_session\<lparr>tick := 2, ser := None\<rparr>)"
proof -
  have "next_reply glitch_session = Quiet" "next_reply (step glitch_session) = SerialError"
    by (simp_all add: glitch_session_def quiet_session_def next_reply_def step_def script_of_def)
  from send_serial_error [OF glitch_session_connected this, of command]
  show ?thesis by (simp add: glitch_session_def quiet_session_def)
qed

lemma parse_gain_response: "parse_gain gain_response = Some 2600"
  by (simp add: parse_gain_def gain_response_def startswith_def)

lemma get_current_gain_answered:
  assumes "is_connected s"
    "\<forall>i < 11. script s (tick s + i) = answer gain_response ! i"
  shows "get_current_gain (Suc d) s
     = Some (Some 2600,
         s\<lparr>tick := tick s + 11, io_log := io_log s @ [Wrote gain_command], gain := Some 2600\<rparr>)"
proof -
  have "\<forall>i < length [0xBB, 0x01, 0xB7, 0x00, 0x02, 0x0A, 0x28, 0xEC :: byte] + 3.
      script s (tick s + i)
        = answer ([0xBB, 0x01, 0xB7, 0x00, 0x02, 0x0A, 0x28, 0xEC] @ [0x7E]) ! i"
    using assms(2) by (simp add: gain_response_def)
  from send_answer [OF assms(1) _ this, of gain_command]
  have "send_command s gain_command
      = Some (Inr gain_response, s\<lparr>tick := tick s + 11, io_log := io_log s @ [Wrote gain_command]\<rparr>)"
    by (simp add: gain_response_def)
  then show ?thesis
    using assms(1) by (simp add: parse_gain_response del: connect.simps)
qed

lemma connect_glitch:
  "connect (Suc d) ''COM3'' (glitch_session\<lparr>tick := 2, ser := None\<rparr>)
     = Some (Inr True, reconnected_session)"
proof -
  let ?s1 = "glitch_session\<lparr>tick := 2, ser := None\<rparr>"
  let ?s2 = "sleep_ms 500 ((step ?s1)\<lparr>ser := Some \<lparr>pname = ''COM3'', is_open = True\<rparr>,
                last_port := Some ''COM3'', io_log := io_log ?s1 @ [Opened ''COM3'']\<rparr>)"
  have d: "disconnect ?s1 = Some (Inr True, ?s1)" by (simp add: disconnect_def)
  have p: "''COM3'' \<in> set (ports ?s1)" by (simp add: glitch_session_def quiet_session_def)
  have n: "next_reply ?s1 = Quiet"
    by (simp add: next_reply_def glitch_session_def quiet_session_def script_of_def answer_def)
  have c: "is_connected ?s2" by (simp add: is_connected_def sleep_ms_def step_def)
  have a: "\<forall>i < 11. script ?s2 (tick ?s2 + i) = answer gain_response ! i"
    by (simp add: sleep_ms_def step_def glitch_session_def quiet_session_def script_of_def
        answer_def gain_response_def nth_append)
  have r: "?s2\<lparr>tick := tick ?s2 + 11, io_log := io_log ?s2 @ [Wrote gain_command],
          gain := Some 2600\<rparr> = reconnected_session"
    by (simp add: sleep_ms_def step_def reconnected_session_def glitch_session_def
        quiet_session_def)
  have g: "get_current_gain (Suc d) ?s2 = Some (Some 2600, reconnected_session)"
    using get_current_gain_answered [OF c a, of d] by (simp only: r)
  show ?thesis
    by (subst connect.simps)
      (simp only: p d n g if_True if_False option.case sum.case prod.case reply.distinct
        simp_thms)
qed

text \<open>
  C7. When \<open>send_command\<close> fails with a transport error, the session was connected
  and is now disconnected: the port handle is dropped, \<open>send_command\<close> has opened
  or closed no port, and \<open>last_port\<close> is what it was. When that happens inside
  \<open>stop_reading\<close>, \<open>start_reading\<close> or \<open>set_select_mode\<close>, the operation
  returns its failure value and leaves the session in that state. When it happens inside
  \<open>read_card_once\<close> or the first attempt of \<open>get_current_gain\<close> and a last port
  is recorded, the operation calls \<open>connect(self.last_port)\<close> at once and carries
  on from the state that leaves.
\<close>

theorem transport_error_disconnects:
  assumes "send_command s command = Some (Inl e, s1)" "transport_error e"
  shows "is_connected s \<and> ser s1 = None \<and> \<not> is_connected s1 \<and> last_port s1 = last_port s
     \<and> (\<exists>frames. io_log s1 = io_log s @ map Wrote frames)
     \<and> (command = stop_command \<and> group_read_active s \<longrightarrow> stop_reading s = Some (False, s1))
     \<and> (command = start_command \<and> \<not> group_read_active s \<longrightarrow>
          start_reading s = Some (False, s1))
     \<and> (set_select_mode_command mode = Inr command \<longrightarrow>
          set_select_mode mode s = Some (Inr False, s1))
     \<and> (command = read_once_command \<longrightarrow>
          read_card_once d s =
            (case last_port s of
               None \<Rightarrow> Some (None, s1)
             | Some port \<Rightarrow>
                 (case connect d port s1 of
                    None \<Rightarrow> None
                  | Some (r, s2) \<Rightarrow> Some (None, s2))))
     \<and> (command = gain_command \<longrightarrow>
          get_current_gain (Suc d) s =
            (case last_port s of
               None \<Rightarrow> gain_second_attempt s1
             | Some port \<Rightarrow>
                 (case connect d port s1 of
                    None \<Rightarrow> None
                  | Some (r, s2) \<Rightarrow> gain_second_attempt s2)))"
proof -
  have c: "is_connected s"
  proof (rule ccontr)
    assume "\<not> is_connected s"
    with assms(1) have "e = RFIDDeviceError NotConnected" by (simp add: send_command_def)
    with assms(2) show False by (simp add: transport_error_def)
  qed
  note t = transport_error_sent [OF assms]
  have stop: "command = stop_command \<and> group_read_active s \<longrightarrow>
      stop_reading s = Some (False, s1)"
    using stop_reading_stays_down [OF c, of e s1] assms(1) by blast
  have start: "command = start_command \<and> \<not> group_read_active s \<longrightarrow>
      start_reading s = Some (False, s1)"
    using start_reading_stays_down [OF c, of e s1] assms(1) by blast
  have sel: "set_select_mode_command mode = Inr command \<longrightarrow>
      set_select_mode mode s = Some (Inr False, s1)"
    using set_select_mode_stays_down [OF c _ assms(1), of mode] by blast
  have rd: "command = read_once_command \<longrightarrow>
          read_card_once d s =
            (case last_port s of
               None \<Rightarrow> Some (None, s1)
             | Some port \<Rightarrow>
                 (case connect d port s1 of
                    None \<Rightarrow> None
                  | Some (r, s2) \<Rightarrow> Some (None, s2)))"
    using read_card_once_reconnects [OF c _ assms(2), of s1 d] assms(1) by blast
  have gn: "command = gain_command \<longrightarrow>
          get_current_gain (Suc d) s =
            (case last_port s of
               None \<Rightarrow> gain_second_attempt s1
             | Some port \<Rightarrow>
                 (case connect d port s1 of
                    None \<Rightarrow> None
                  | Some (r, s2) \<Rightarrow> gain_second_attempt s2))"
    using get_current_gain_reconnects [OF c _ assms(2), of s1 d] assms(1) by blast
  from c t stop start sel rd gn show ?thesis by blast
qed

lemma transport_error_CommFailed: "transport_error (RFIDDeviceError CommFailed)"
  by (simp add: transport_error_def)

lemma unplugged_session_connected:
  "is_connected unplugged_session" "group_read_active unplugged_session"
  by (simp_all add: unplugged_session_def quiet_session_def is_connected_def)

lemma send_unplugged_session:
  "send_command unplugged_session command
     = Some (Inl (RFIDDeviceError CommFailed), unplugged_session\<lparr>tick := 2, ser := None\<rparr>)"
proof -
  have "next_reply unplugged_session = Quiet" "next_reply (step unplugged_session) = SerialError"
    by (simp_all add: unplugged_session_def quiet_session_def next_reply_def step_def script_of_def)
  from send_serial_error [OF unplugged_session_connected(1) this, of command]
  show ?thesis by (simp add: unplugged_session_def quiet_session_def)
qed

theorem transport_error_disconnects_witness:
  "send_command glitch_session read_once_command
     = Some (Inl (RFIDDeviceError CommFailed), glitch_session\<lparr>tick := 2, ser := None\<rparr>)
   \<and> transport_error (RFIDDeviceError CommFailed)
   \<and> \<not> is_connected (glitch_session\<lparr>tick := 2, ser := None\<rparr>)
   \<and> read_card_once 1 glitch_session = Some (None, reconnected_session)
   \<and> send_command unplugged_session stop_command
     = Some (Inl (RFIDDeviceError CommFailed), unplugged_session\<lparr>tick := 2, ser := None\<rparr>)
   \<and> group_read_active unplugged_session
   \<and> stop_reading unplugged_session
     = Some (False, unplugged_session\<lparr>tick := 2, ser := None\<rparr>)"
proof -
  have l: "last_port glitch_session = Some ''COM3''"
    by (simp add: glitch_session_def quiet_session_def)
  show ?thesis
    using transport_error_disconnects
      [OF send_glitch_session [of read_once_command] transport_error_CommFailed, of 2 "Suc 0"]
      transport_error_disconnects
      [OF send_unplugged_session [of stop_command] transport_error_CommFailed, of 2 "Suc 0"]
    by (simp add: send_glitch_session send_unplugged_session transport_error_CommFailed l
        connect_glitch unplugged_session_connected del: connect.simps)
qed

text \<open>
  One read on the example session: the write fails with \<open>SerialException\<close>, and
  \<open>read_card_once\<close> returns with the port \<open>COM3\<close> opened again and the gain
  queried, no caller having asked for a connection.
\<close>

theorem read_card_once_reopens:
  "is_connected glitch_session
   \<and> send_command glitch_session read_once_command
       = Some (Inl (RFIDDeviceError CommFailed), glitch_session\<lparr>tick := 2, ser := None\<rparr>)
   \<and> read_card_once 1 glitch_session = Some (None, reconnected_session)
   \<and> is_connected reconnected_session
   \<and> io_log reconnected_session = [Opened ''COM3'', Wrote gain_command]"
proof -
  have l: "last_port glitch_session = Some ''COM3''"
    by (simp add: glitch_session_def quiet_session_def)
  have "read_card_once (Suc 0) glitch_session = Some (None, reconnected_session)"
    using glitch_session_connected
    by (simp add: read_card_once_def send_glitch_session is_connected_def l connect_glitch
        del: connect.simps)
  then show ?thesis
    using glitch_session_connected send_glitch_session [of read_once_command]
    by (simp add: reconnected_session_def is_connected_def)
qed

end
